theory Spec2Isabelle
  imports Complex_Main "HOL-Library.Sublist"
begin

section \<open>Python values\<close>

text \<open>
  A Python \<^verbatim>\<open>str\<close> is a sequence of Unicode code points; it is modelled as the list of
  their numbers, so that \<^verbatim>\<open>len\<close>, slicing and the regular expressions of
  \<^verbatim>\<open>result.py\<close> count what Python counts.  Dictionary keys, tag names and attribute
  names are ASCII literals in the source and are kept as HOL strings.
\<close>

type_synonym pstr = "nat list"

definition u :: "string \<Rightarrow> pstr" where
  "u s = map of_char s"

text \<open>
  The decimal digits of Unicode (general category Nd, Unicode 14.0.0) come in runs of ten
  consecutive code points, zero first; the table lists the zero of every run.  Python's
  \<^verbatim>\<open>\d\<close> on a \<^verbatim>\<open>str\<close> pattern matches exactly the characters of this category.
\<close>

definition unicode_decimal_zeros :: "nat list" where
  "unicode_decimal_zeros =
    [48, 1632, 1776, 1984, 2406, 2534, 2662, 2790, 2918, 3046, 3174, 3302, 3430, 3558,
     3664, 3792, 3872, 4160, 4240, 6112, 6160, 6470, 6608, 6784, 6800, 6992, 7088, 7232,
     7248, 42528, 43216, 43264, 43472, 43504, 43600, 44016, 65296, 66720, 68912, 69734,
     69872, 69942, 70096, 70384, 70736, 70864, 71248, 71360, 71472, 71904, 72016, 72784,
     73040, 73120, 92768, 92864, 93008, 120782, 120792, 120802, 120812, 120822, 123200,
     123632, 125264, 130032]"

definition decimal_value :: "nat \<Rightarrow> nat option" where
  "decimal_value c =
     (case filter (\<lambda>z. z \<le> c \<and> c < z + 10) unicode_decimal_zeros of
        [] \<Rightarrow> None
      | z # _ \<Rightarrow> Some (c - z))"

definition is_decimal :: "nat \<Rightarrow> bool" where
  "is_decimal c = (decimal_value c \<noteq> None)"

text \<open>
  \<^verbatim>\<open>str.strip()\<close> removes the characters for which \<^verbatim>\<open>str.isspace\<close> holds from both
  ends.
\<close>

definition py_isspace :: "nat \<Rightarrow> bool" where
  "py_isspace c \<longleftrightarrow>
     (9 \<le> c \<and> c \<le> 13) \<or> (28 \<le> c \<and> c \<le> 32) \<or> c = 0x85 \<or> c = 0xA0 \<or> c = 0x1680 \<or>
     (0x2000 \<le> c \<and> c \<le> 0x200A) \<or> c = 0x2028 \<or> c = 0x2029 \<or> c = 0x202F \<or>
     c = 0x205F \<or> c = 0x3000"

definition py_strip :: "pstr \<Rightarrow> pstr" where
  "py_strip s = rev (dropWhile py_isspace (rev (dropWhile py_isspace s)))"

text \<open>
  \<^verbatim>\<open>s.split(sep)\<close> for a separator of one character: the pieces between the
  occurrences of the separator, at least one piece.
\<close>

fun py_split :: "nat \<Rightarrow> pstr \<Rightarrow> pstr list" where
  "py_split sep [] = [[]]"
| "py_split sep (c # cs) =
     (if c = sep then [] # py_split sep cs
      else (case py_split sep cs of
              [] \<Rightarrow> [[c]]
            | p # ps \<Rightarrow> (c # p) # ps))"

text \<open>\<^verbatim>\<open>sub in s\<close> on strings: \<^verbatim>\<open>sub\<close> occurs in \<^verbatim>\<open>s\<close> as a contiguous run.\<close>

fun py_in :: "pstr \<Rightarrow> pstr \<Rightarrow> bool" where
  "py_in sub [] = (sub = [])"
| "py_in sub (c # cs) = (prefix sub (c # cs) \<or> py_in sub cs)"

text \<open>
  \<^verbatim>\<open>s.replace(old, "")\<close>: the occurrences of \<^verbatim>\<open>old\<close> are removed from left to
  right, without overlap.
\<close>

function py_remove :: "pstr \<Rightarrow> pstr \<Rightarrow> pstr" where
  "py_remove old [] = []"
| "py_remove old (c # cs) =
     (if old \<noteq> [] \<and> prefix old (c # cs) then py_remove old (drop (length old) (c # cs))
      else c # py_remove old cs)"
  by pat_completeness auto
termination
  by (relation "measure (\<lambda>(old, s). length s)") auto

text \<open>The decimal rendering of a natural number, as an f-string gives it.\<close>

definition digit_char :: "nat \<Rightarrow> char" where
  "digit_char d = ''0123456789'' ! d"

fun str_nat :: "nat \<Rightarrow> string" where
  "str_nat n =
     (if n < 10 then [digit_char n]
      else str_nat (n div 10) @ [digit_char (n mod 10)])"

declare str_nat.simps [simp del]

section \<open>Floating-point numbers\<close>

text \<open>
  A Python \<^verbatim>\<open>float\<close> is an IEEE 754 binary64 number: a sign and a magnitude that is a
  rational of the form \<open>m * 2^e\<close> with \<open>m < 2^53\<close> and \<open>-1074 \<le> e\<close>, or an infinity,
  or a NaN.  Every operation rounds its exact result to the nearest such number, ties to
  the even mantissa, and overflows to the infinity from \<open>2^1024\<close> on.
\<close>

datatype pyfloat = Num bool rat | Infty bool | NaN

function bit_length :: "int \<Rightarrow> int" where
  "bit_length n = (if n \<le> 0 then 0 else 1 + bit_length (n div 2))"
  by pat_completeness auto
termination
  by (relation "measure nat") auto

declare bit_length.simps [simp del]

definition pow2 :: "int \<Rightarrow> rat" where
  "pow2 e = (if 0 \<le> e then 2 ^ nat e else 1 / 2 ^ nat (- e))"

definition pow10 :: "int \<Rightarrow> rat" where
  "pow10 e = (if 0 \<le> e then 10 ^ nat e else 1 / 10 ^ nat (- e))"

text \<open>
  The exponent of the leading bit of a positive rational \<open>q\<close>, that is the \<open>e\<close> with
  \<open>2^e \<le> q < 2^(e+1)\<close>.
\<close>

definition floor_log2 :: "rat \<Rightarrow> int" where
  "floor_log2 q =
     (if 1 \<le> q then bit_length \<lfloor>q\<rfloor> - 1
      else - bit_length (\<lceil>1 / q\<rceil> - 1))"

definition round_half_even :: "rat \<Rightarrow> int" where
  "round_half_even q =
     (let f = \<lfloor>q\<rfloor>; r = q - of_int f
      in if r < 1 / 2 then f
         else if 1 / 2 < r then f + 1
         else if even f then f else f + 1)"

definition round_double :: "rat \<Rightarrow> rat" where
  "round_double q =
     (if q = 0 then 0
      else (let e = max (floor_log2 q - 52) (- 1074)
            in of_int (round_half_even (q / pow2 e)) * pow2 e))"

definition float_of_rat :: "bool \<Rightarrow> rat \<Rightarrow> pyfloat" where
  "float_of_rat neg q =
     (let r = round_double q in if 2 ^ 1024 \<le> r then Infty neg else Num neg r)"

text \<open>Multiplication of two floats.\<close>

fun fmul :: "pyfloat \<Rightarrow> pyfloat \<Rightarrow> pyfloat" where
  "fmul (Num s p) (Num t q) = float_of_rat (s \<noteq> t) (p * q)"
| "fmul (Num s p) (Infty t) = (if p = 0 then NaN else Infty (s \<noteq> t))"
| "fmul (Infty s) (Num t q) = (if q = 0 then NaN else Infty (s \<noteq> t))"
| "fmul (Infty s) (Infty t) = Infty (s \<noteq> t)"
| "fmul NaN y = NaN"
| "fmul x NaN = NaN"

text \<open>
  \<^verbatim>\<open>round(x, 0)\<close> on a float: the nearest integer as a float, ties to even, the sign
  kept; infinities and NaN round to themselves.
\<close>

fun py_round0 :: "pyfloat \<Rightarrow> pyfloat" where
  "py_round0 (Num s q) = Num s (of_int (round_half_even q))"
| "py_round0 (Infty s) = Infty s"
| "py_round0 NaN = NaN"

text \<open>Truth value of a float: everything but the two zeros.\<close>

fun float_truthy :: "pyfloat \<Rightarrow> bool" where
  "float_truthy (Num s q) = (q \<noteq> 0)"
| "float_truthy (Infty s) = True"
| "float_truthy NaN = True"

datatype pyerror = ValueError | IndexError | AttributeError | OverflowError

text \<open>
  \<^verbatim>\<open>float(s)\<close> on a string.  A string with a non-ASCII character first has its
  whitespace turned into spaces and its decimal digits into ASCII digits, and is cut
  after the first other non-ASCII character, which becomes a question mark.
\<close>

fun to_ascii :: "pstr \<Rightarrow> pstr" where
  "to_ascii [] = []"
| "to_ascii (c # cs) =
     (if c < 127 then c # to_ascii cs
      else if py_isspace c then 32 # to_ascii cs
      else (case decimal_value c of
              None \<Rightarrow> [63]
            | Some d \<Rightarrow> (48 + d) # to_ascii cs))"

definition ascii_space :: "nat \<Rightarrow> bool" where
  "ascii_space c \<longleftrightarrow> (9 \<le> c \<and> c \<le> 13) \<or> c = 32"

definition ascii_digit :: "nat \<Rightarrow> bool" where
  "ascii_digit c \<longleftrightarrow> 48 \<le> c \<and> c \<le> 57"

text \<open>
  Underscores are allowed between two digits only; they are removed before the number
  is read.  \<^verbatim>\<open>prev\<close> is the character before, 0 at the start.
\<close>

fun drop_underscores :: "nat \<Rightarrow> pstr \<Rightarrow> pstr option" where
  "drop_underscores prev [] = (if prev = 95 then None else Some [])"
| "drop_underscores prev (c # cs) =
     (if c = 95 then (if ascii_digit prev then drop_underscores c cs else None)
      else if prev = 95 \<and> \<not> ascii_digit c then None
      else map_option ((#) c) (drop_underscores c cs))"

definition digits_value :: "pstr \<Rightarrow> int" where
  "digits_value ds = foldl (\<lambda>acc c. 10 * acc + (int c - 48)) 0 ds"

definition ascii_lower :: "nat \<Rightarrow> nat" where
  "ascii_lower c = (if 65 \<le> c \<and> c \<le> 90 then c + 32 else c)"

text \<open>The exponent part after the \<^verbatim>\<open>e\<close>: an optional sign and at least one digit.\<close>

definition parse_exponent :: "pstr \<Rightarrow> int option" where
  "parse_exponent s =
     (let (neg, ds) = (case s of
                         [] \<Rightarrow> (False, [])
                       | c # cs \<Rightarrow> if c = 45 then (True, cs)
                                   else if c = 43 then (False, cs)
                                   else (False, s))
      in if ds = [] \<or> \<not> list_all ascii_digit ds then None
         else Some (if neg then - digits_value ds else digits_value ds))"

text \<open>
  The unsigned decimal: digits, an optional point and digits (at least one digit in
  all), an optional exponent; the exact rational it denotes.
\<close>

definition parse_decimal :: "pstr \<Rightarrow> rat option" where
  "parse_decimal s =
     (let ip = takeWhile ascii_digit s;
          r1 = dropWhile ascii_digit s;
          (fp, r2) = (case r1 of
                        [] \<Rightarrow> ([], [])
                      | c # cs \<Rightarrow> if c = 46 then (takeWhile ascii_digit cs, dropWhile ascii_digit cs)
                                  else ([], r1))
      in if ip = [] \<and> fp = [] then None
         else (let m = of_int (digits_value (ip @ fp)) * pow10 (- int (length fp))
               in case r2 of
                    [] \<Rightarrow> Some m
                  | c # cs \<Rightarrow> if c = 101 \<or> c = 69
                              then map_option (\<lambda>e. m * pow10 e) (parse_exponent cs)
                              else None))"

definition parse_float_body :: "bool \<Rightarrow> pstr \<Rightarrow> pyerror + pyfloat" where
  "parse_float_body neg s =
     (let l = map ascii_lower s
      in if l = u ''inf'' \<or> l = u ''infinity'' then Inr (Infty neg)
         else if l = u ''nan'' then Inr NaN
         else (case parse_decimal s of
                 None \<Rightarrow> Inl ValueError
               | Some q \<Rightarrow> Inr (float_of_rat neg q)))"

definition py_float :: "pstr \<Rightarrow> pyerror + pyfloat" where
  "py_float s =
     (let a = (if list_all (\<lambda>c. c < 128) s then s else to_ascii s);
          t = rev (dropWhile ascii_space (rev (dropWhile ascii_space a)))
      in case (if 95 \<in> set t then drop_underscores 0 t else Some t) of
           None \<Rightarrow> Inl ValueError
         | Some b \<Rightarrow>
             (case b of
                [] \<Rightarrow> Inl ValueError
              | c # cs \<Rightarrow> if c = 45 then parse_float_body True cs
                          else if c = 43 then parse_float_body False cs
                          else parse_float_body False b))"

section \<open>The parsed document\<close>

text \<open>
  The document that BeautifulSoup hands to the extractor: text nodes, and tags with a
  name, an attribute dictionary (as an association list) and children.  The soup itself
  is the list of the top-level nodes.
\<close>

datatype node = Text pstr | Tag string "(string \<times> pstr) list" "node list"

text \<open>
  \<^verbatim>\<open>tag.get_text(strip=True)\<close>: the strings below the tag in document order, each
  stripped, the empty ones dropped, joined without a separator.
\<close>

fun stripped_strings :: "node \<Rightarrow> pstr list" where
  "stripped_strings (Text s) = (let t = py_strip s in if t = [] then [] else [t])"
| "stripped_strings (Tag nm attrs ch) = concat (map stripped_strings ch)"

definition get_text_strip :: "node \<Rightarrow> pstr" where
  "get_text_strip n = concat (stripped_strings n)"

text \<open>
  \<^verbatim>\<open>soup.find(pred)\<close>: the first tag in document order (a tag before its descendants,
  those before its later siblings) that satisfies the predicate.  The siblings after the
  tag are returned with it, for \<^verbatim>\<open>find_next_sibling\<close>.
\<close>

fun find_first :: "(node \<Rightarrow> bool) \<Rightarrow> node list \<Rightarrow> (node \<times> node list) option" where
  "find_first P [] = None"
| "find_first P (Text s # rest) = find_first P rest"
| "find_first P (Tag nm attrs ch # rest) =
     (if P (Tag nm attrs ch) then Some (Tag nm attrs ch, rest)
      else (case find_first P ch of
              Some r \<Rightarrow> Some r
            | None \<Rightarrow> find_first P rest))"

fun is_tag_named :: "string \<Rightarrow> node \<Rightarrow> bool" where
  "is_tag_named nm (Text s) = False"
| "is_tag_named nm (Tag m attrs ch) = (m = nm)"

definition find_next_sibling :: "string \<Rightarrow> node list \<Rightarrow> node option" where
  "find_next_sibling nm later = List.find (is_tag_named nm) later"

definition labelled :: "string \<Rightarrow> pstr \<Rightarrow> node \<Rightarrow> bool" where
  "labelled nm label tag \<longleftrightarrow> is_tag_named nm tag \<and> py_in label (get_text_strip tag)"

definition value_after :: "string \<Rightarrow> string \<Rightarrow> pstr \<Rightarrow> node list \<Rightarrow> node option" where
  "value_after term desc label soup =
     (case find_first (labelled term label) soup of
        None \<Rightarrow> None
      | Some (t, later) \<Rightarrow> find_next_sibling desc later)"

definition get_value_by_label :: "node list \<Rightarrow> pstr \<Rightarrow> pstr option" where
  "get_value_by_label soup label =
     (case value_after ''dt'' ''dd'' label soup of
        Some dd \<Rightarrow> Some (get_text_strip dd)
      | None \<Rightarrow>
          (case value_after ''th'' ''td'' label soup of
             Some td \<Rightarrow> Some (get_text_strip td)
           | None \<Rightarrow> None))"

text \<open>\<^verbatim>\<open>soup.select("img")\<close>: the attribute dictionaries of all tags of that name, in document order.\<close>

fun select_tag :: "string \<Rightarrow> node list \<Rightarrow> (string \<times> pstr) list list" where
  "select_tag nm [] = []"
| "select_tag nm (Text s # rest) = select_tag nm rest"
| "select_tag nm (Tag m attrs ch # rest) =
     (if m = nm then [attrs] else []) @ select_tag nm ch @ select_tag nm rest"

section \<open>The address parser\<close>

text \<open>
  \<^verbatim>\<open>re.match(r"^(.*?[...])", s)\<close>: the lazy \<^verbatim>\<open>.*?\<close> takes as few characters as
  possible, none of them a line feed (no DOTALL flag), and the class then takes one
  character.  The match is the prefix up to and including the first character of the
  class, and there is none when a line feed comes first or the class never occurs.
\<close>

fun match_lazy_upto :: "nat list \<Rightarrow> pstr \<Rightarrow> pstr option" where
  "match_lazy_upto cls [] = None"
| "match_lazy_upto cls (c # cs) =
     (if c \<in> set cls then Some [c]
      else if c = 10 then None
      else map_option ((#) c) (match_lazy_upto cls cs))"

text \<open>
  \<^verbatim>\<open>re.match(r"^([^\d]+)", s)\<close>: the greedy run of leading characters that are not
  decimal digits; no match when the run is empty.
\<close>

definition match_nondigits :: "pstr \<Rightarrow> pstr option" where
  "match_nondigits s =
     (let run = takeWhile (\<lambda>c. \<not> is_decimal c) s
      in if run = [] then None else Some run)"

definition prefecture_class :: "nat list" where
  "prefecture_class = [0x90FD, 0x9053, 0x5E9C, 0x770C]"

definition city_class :: "nat list" where
  "city_class = [0x5E02, 0x533A, 0x753A, 0x6751]"

text \<open>
  \<^verbatim>\<open>remaining[len(x):] if x else remaining\<close>: the slice is taken when the group is a
  non-empty string, and the text is passed on whole when it is \<^verbatim>\<open>None\<close> (or empty).
\<close>

definition after_group :: "pstr option \<Rightarrow> pstr \<Rightarrow> pstr" where
  "after_group g s =
     (case g of
        None \<Rightarrow> s
      | Some x \<Rightarrow> if x \<noteq> [] then drop (length x) s else s)"

definition parse_japanese_address ::
  "pstr \<Rightarrow> pstr option \<times> pstr option \<times> pstr option \<times> pstr" where
  "parse_japanese_address address =
     (let prefecture = match_lazy_upto prefecture_class address;
          remaining = after_group prefecture address;
          city = match_lazy_upto city_class remaining;
          remaining2 = after_group city remaining;
          district = match_nondigits remaining2;
          chome_banchi = after_group district remaining2
      in (prefecture, city, district, chome_banchi))"

definition or_empty :: "pstr option \<Rightarrow> pstr" where
  "or_empty g = (case g of None \<Rightarrow> [] | Some x \<Rightarrow> x)"

section \<open>The mapping tables\<close>

text \<open>
  The dictionaries of \<^verbatim>\<open>result.py\<close>, in the order of their literals (the order in
  which \<^verbatim>\<open>items()\<close> and \<^verbatim>\<open>values()\<close> run); no label occurs twice.
\<close>

definition UI_MAPPING :: "(pstr \<times> string) list" where
  "UI_MAPPING =
    [([0x7269, 0x4EF6, 0x540D], ''building_name_ja''),
     ([0x7A2E, 0x5225], ''building_type''),
     ([0x5EFA, 0x7269, 0x69CB, 0x9020], ''structure''),
     ([0x6240, 0x5728, 0x5730], ''address''),
     ([0x7BC9, 0x5E74, 0x6708], ''year''),
     ([0x90E8, 0x5C4B, 0x756A, 0x53F7], ''unit_no''),
     ([0x6240, 0x5728, 0x968E, 0x2F, 0x968E, 0x5EFA], ''floor_no/floors''),
     ([0x9593, 0x53D6, 0x308A, 0xFF08, 0x30BF, 0x30A4, 0x30D7, 0xFF09], ''room_type''),
     ([0x5C02, 0x6709, 0x9762, 0x7A4D], ''size''),
     ([0x65B9, 0x4F4D], ''facing''),
     ([0x8CC3, 0x6599], ''monthly_rent''),
     ([0x7BA1, 0x7406, 0x8CBB, 0x30FB, 0x5171, 0x76CA, 0x8CBB], ''monthly_maintenance''),
     ([0x6577, 0x91D1, 0x2F, 0x4FDD, 0x8A3C, 0x91D1], ''deposit/security_deposit''),
     ([0x793C, 0x91D1, 0x2F, 0x511F, 0x5374, 0x30FB, 0x6577, 0x5F15], ''key_money/amortization''),
     ([0x66F4, 0x65B0, 0x6599], ''months_renewal''),
     ([0x4FDD, 0x967A, 0x6599], ''fire_insurance''),
     ([0x30D5, 0x30EA, 0x30FC, 0x30EC, 0x30F3, 0x30C8], ''discount''),
     ([0x5165, 0x5C45, 0x53EF, 0x80FD, 0x65E5], ''available_from''),
     ([0x9000, 0x53BB, 0x6642, 0x8CBB, 0x7528], ''other_initial_fees''),
     ([0x30DA, 0x30C3, 0x30C8, 0x53EF, 0x533A, 0x5206], ''pets''),
     ([0x5099, 0x8003], ''property_notes''),
     ([0x8A2D, 0x5099, 0x30FB, 0x6761, 0x4EF6], ''features'')]"

definition FEATURES_MAPPING :: "(pstr \<times> string) list" where
  "FEATURES_MAPPING =
    [([0x58C1, 0x639B, 0x3051, 0xFF74, 0xFF71, 0xFF7A, 0xFF9D, 0x31, 0x53F0], ''aircon''),
     ([0x30A8, 0x30A2, 0x30B3, 0x30F3, 0x6696, 0x623F, 0x4ED8, 0x304D], ''aircon_heater''),
     ([0x30AA, 0x30FC, 0x30EB, 0x96FB, 0x5316], ''all_electric''),
     ([0x81EA, 0x52D5, 0x304A, 0x6E6F, 0x5F35, 0x308A], ''auto_fill_bath''),
     ([0x30D0, 0x30EB, 0x30B3, 0x30CB, 0x30FC], ''balcony''),
     ([0x6D74, 0x5BA4], ''bath''),
     ([0x6D74, 0x5BA4, 0x4E7E, 0x71E5, 0x6A5F, 0x80FD], ''bath_water_heater''),
     ([0x30D6, 0x30E9, 0x30A4, 0x30F3, 0x30C9], ''blinds''),
     ([0x42, 0x53, 0x5BFE, 0x5FDC, 0x53EF], ''bs''),
     ([0x30B1, 0x30FC, 0x30D6, 0x30EB, 0x30C6, 0x30EC, 0x30D3], ''cable''),
     ([0x30AB, 0x30FC, 0x30DA, 0x30C3, 0x30C8], ''carpet''),
     ([0x6E05, 0x6383, 0x30B5, 0x30FC, 0x30D3, 0x30B9], ''cleaning_service''),
     ([0x30AB, 0x30A6, 0x30F3, 0x30BF, 0x30FC, 0x30AD, 0x30C3, 0x30C1, 0x30F3], ''counter_kitchen''),
     ([0x98DF, 0x5668, 0x6D17, 0x6D44, 0x6A5F], ''dishwasher''),
     ([0x30AB, 0x30FC, 0x30C6, 0x30F3], ''drapes''),
     ([0x5973, 0x6027, 0x5C02, 0x7528], ''female_only''),
     ([0x6696, 0x7089], ''fireplace''),
     ([0x30D5, 0x30ED, 0x30FC, 0x30EA, 0x30F3, 0x30B0], ''flooring''),
     ([0x30D5, 0x30EB, 0x30AD, 0x30C3, 0x30C1, 0x30F3], ''full_kitchen''),
     ([0x5BB6, 0x5177, 0x4ED8, 0x304D], ''furnished''),
     ([0x30AC, 0x30B9], ''gas''),
     ([0x49, 0x48, 0x30AF, 0x30C3, 0x30AD, 0x30F3, 0x30B0, 0x30D2, 0x30FC, 0x30BF, 0x30FC], ''induction_cooker''),
     ([0x30A4, 0x30F3, 0x30BF, 0x30FC, 0x30CD, 0x30C3, 0x30C8, 0x7121, 0x6599], ''internet_broadband''),
     ([0x57, 0x69, 0x2D, 0x46, 0x69], ''internet_wifi''),
     ([0x6E29, 0x6C34, 0x6D17, 0x6D44, 0x4FBF, 0x5EA7], ''japanese_toilet''),
     ([0x30EA, 0x30CD, 0x30F3], ''linen''),
     ([0x30ED, 0x30D5, 0x30C8], ''loft''),
     ([0x96FB, 0x5B50, 0x30EC, 0x30F3, 0x30B8], ''microwave''),
     ([0x30AA, 0x30FC, 0x30D6, 0x30F3], ''oven''),
     ([0x96FB, 0x8A71, 0x56DE, 0x7DDA], ''phoneline''),
     ([0x30B3, 0x30F3, 0x30ED], ''range''),
     ([0x51B7, 0x8535, 0x5EAB], ''refrigerator''),
     ([0x51B7, 0x8535, 0x5EAB, 0x2F, 0x51B7, 0x51CD, 0x5EAB], ''refrigerator_freezer''),
     ([0x5C4B, 0x4E0A, 0x30D0, 0x30EB, 0x30B3, 0x30CB, 0x30FC], ''roof_balcony''),
     ([0x30C8, 0x30A4, 0x30EC, 0x5225], ''separate_toilet''),
     ([0x30B7, 0x30E3, 0x30EF, 0x30FC], ''shower''),
     ([0x53, 0x4F, 0x48, 0x4F, 0x53EF], ''soho''),
     ([0x53CE, 0x7D0D], ''storage''),
     ([0x5B66, 0x751F, 0x5411, 0x3051], ''student_friendly''),
     ([0x30B7, 0x30B9, 0x30C6, 0x30E0, 0x30AD, 0x30C3, 0x30C1, 0x30F3], ''system_kitchen''),
     ([0x7573], ''tatami''),
     ([0x5E8A, 0x6696, 0x623F], ''underfloor_heating''),
     ([0x30E6, 0x30CB, 0x30C3, 0x30C8, 0x30D0, 0x30B9], ''unit_bath''),
     ([0x8ABF, 0x7406, 0x5668, 0x5177, 0x4ED8, 0x304D], ''utensils_cutlery''),
     ([0x30D9, 0x30E9, 0x30F3, 0x30C0], ''veranda''),
     ([0x6D17, 0x6FEF, 0x6A5F, 0x2F, 0x4E7E, 0x71E5, 0x6A5F], ''washer_dryer''),
     ([0x6D17, 0x6FEF, 0x6A5F, 0x7F6E, 0x5834], ''washing_machine''),
     ([0x30A6, 0x30A9, 0x30B7, 0x30E5, 0x30EC, 0x30C3, 0x30C8], ''washlet''),
     ([0x6D0B, 0x5F0F, 0x30C8, 0x30A4, 0x30EC], ''western_toilet'')]"

definition JP_TO_EN_FACING :: "(pstr \<times> string) list" where
  "JP_TO_EN_FACING =
    [([0x5317], ''facing_north''),
     ([0x5317, 0x6771], ''facing_northeast''),
     ([0x6771], ''facing_east''),
     ([0x5357, 0x6771], ''facing_southeast''),
     ([0x5357], ''facing_south''),
     ([0x5357, 0x897F], ''facing_southwest''),
     ([0x897F], ''facing_west''),
     ([0x5317, 0x897F], ''facing_northwest'')]"

definition DEFAULT_FEATURES :: "string list" where
  "DEFAULT_FEATURES =
    [''aircon'', ''aircon_heater'', ''bs'', ''internet_broadband'', ''phoneline'',
     ''flooring'', ''system_kitchen'', ''bath'', ''shower'', ''unit_bath'',
     ''western_toilet'', ''credit_card'']"

text \<open>Some labels of \<^verbatim>\<open>UI_MAPPING\<close>, by the name of their field.\<close>

definition facing_label :: pstr where
  "facing_label = [0x65B9, 0x4F4D]"

definition rent_label :: pstr where
  "rent_label = [0x8CC3, 0x6599]"

definition deposit_label :: pstr where
  "deposit_label = [0x6577, 0x91D1, 0x2F, 0x4FDD, 0x8A3C, 0x91D1]"

definition key_money_label :: pstr where
  "key_money_label = [0x793C, 0x91D1, 0x2F, 0x511F, 0x5374, 0x30FB, 0x6577, 0x5F15]"

definition features_label :: pstr where
  "features_label = [0x8A2D, 0x5099, 0x30FB, 0x6761, 0x4EF6]"

section \<open>The record and the field normalizer\<close>

text \<open>
  The values of the record: \<^verbatim>\<open>None\<close>, a string, or a float (the derived fees).  The
  record is a dictionary from keys to values; a key that is not in the dictionary is
  \<open>None\<close> of the map, a key that holds Python's \<^verbatim>\<open>None\<close> is \<open>Some PNone\<close>.
\<close>

datatype pyval = PNone | PStr pstr | PFloat pyfloat

type_synonym pydict = "string \<rightharpoonup> pyval"

definition opt_str :: "pstr option \<Rightarrow> pyval" where
  "opt_str g = (case g of None \<Rightarrow> PNone | Some x \<Rightarrow> PStr x)"

definition Y :: pyval where
  "Y = PStr (u ''Y'')"

definition N :: pyval where
  "N = PStr (u ''N'')"

text \<open>\<^verbatim>\<open>"0" if part.strip() == "-" else part.strip()\<close>\<close>

definition dash_to_zero :: "pstr \<Rightarrow> pstr" where
  "dash_to_zero part = (if py_strip part = u ''-'' then u ''0'' else py_strip part)"

text \<open>
  The two composite fee fields: the sub-keys are written only when the split on the
  slash gives two parts.
\<close>

definition split_pair :: "pydict \<Rightarrow> string \<Rightarrow> string \<Rightarrow> pstr \<Rightarrow> pydict" where
  "split_pair data k1 k2 value =
     (let parts = py_split 0x2F value
      in if length parts = 2
         then data(k1 \<mapsto> PStr (dash_to_zero (parts ! 0)), k2 \<mapsto> PStr (dash_to_zero (parts ! 1)))
         else data)"

text \<open>The address branch: the four sub-fields, and no key \<^verbatim>\<open>address\<close>.\<close>

definition set_address :: "pydict \<Rightarrow> pstr \<Rightarrow> pydict" where
  "set_address data value =
     (case parse_japanese_address value of
        (prefecture, city, district, chome_banchi) \<Rightarrow>
          data(''prefecture'' \<mapsto> opt_str prefecture, ''city'' \<mapsto> opt_str city,
               ''district'' \<mapsto> opt_str district, ''chome_banchi'' \<mapsto> PStr chome_banchi))"

text \<open>
  The facing branch: every facing key is set to \<^verbatim>\<open>"N"\<close>, then the key of the stripped
  value, when the table has a (non-empty) one, to \<^verbatim>\<open>"Y"\<close>.
\<close>

definition set_facing :: "pydict \<Rightarrow> pstr \<Rightarrow> pydict" where
  "set_facing data value =
     (let data1 = fold (\<lambda>k d. d(k \<mapsto> N)) (map snd JP_TO_EN_FACING) data
      in case map_of JP_TO_EN_FACING (py_strip value) of
           None \<Rightarrow> data1
         | Some key_name \<Rightarrow> if key_name \<noteq> [] then data1(key_name \<mapsto> Y) else data1)"

text \<open>
  The features branch: one flag for every entry of the feature table, then the default
  features.
\<close>

definition set_features :: "pydict \<Rightarrow> pstr \<Rightarrow> pydict" where
  "set_features data value =
     (let features_list = map py_strip (py_split 0x3001 value);
          data1 = fold (\<lambda>(jp_feature, key) d.
                           d(key \<mapsto> (if jp_feature \<in> set features_list then Y else N)))
                       FEATURES_MAPPING data
      in fold (\<lambda>key d. d(key \<mapsto> Y)) DEFAULT_FEATURES data1)"

definition set_floor :: "pydict \<Rightarrow> pstr \<Rightarrow> pydict" where
  "set_floor data value =
     (let parts = py_split 0x2F value
      in data(''floor_no'' \<mapsto> (if 0 < length parts then PStr (py_strip (parts ! 0)) else PNone),
              ''floors'' \<mapsto> (if 1 < length parts then PStr (py_strip (parts ! 1)) else PNone)))"

text \<open>
  The rent branch: of a range only what stands before the wave dash is kept.  Indexing
  the list of the pieces raises \<^verbatim>\<open>IndexError\<close> on an empty list.
\<close>

definition rent_text :: "pstr \<Rightarrow> pyerror + pstr" where
  "rent_text value =
     (if 0x301C \<in> set value then
        (case py_split 0x301C value of
           [] \<Rightarrow> Inl IndexError
         | first # others \<Rightarrow> Inr (py_strip first))
      else Inr value)"

definition set_monthly_rent :: "pydict \<Rightarrow> pstr \<Rightarrow> pyerror + pydict" where
  "set_monthly_rent data value =
     (case rent_text value of
        Inl e \<Rightarrow> Inl e
      | Inr kept \<Rightarrow> Inr (data(''monthly_rent'' \<mapsto> PStr kept)))"

text \<open>
  The body of the loop over \<^verbatim>\<open>UI_MAPPING\<close> for a label whose value was found and is
  not empty: the chain of tests on \<^verbatim>\<open>output_key\<close>, in the order of the source.
\<close>

definition handle_field :: "pydict \<Rightarrow> string \<Rightarrow> pstr \<Rightarrow> pyerror + pydict" where
  "handle_field data output_key value =
     (if output_key = ''address'' then Inr (set_address data value)
      else if output_key = ''facing'' then Inr (set_facing data value)
      else if output_key = ''features'' then Inr (set_features data value)
      else if output_key = ''floor_no/floors'' then Inr (set_floor data value)
      else if output_key = ''deposit/security_deposit'' then
        Inr (split_pair data ''months_security_deposit'' ''numeric_security_deposit'' value)
      else if output_key = ''key_money/amortization'' then
        Inr (split_pair data ''months_key'' ''numeric_key'' value)
      else if output_key = ''monthly_rent'' then set_monthly_rent data value
      else Inr (data(output_key \<mapsto> PStr value)))"

text \<open>One round of the loop: the label is looked up, and skipped when nothing is found.\<close>

definition process_label :: "node list \<Rightarrow> pydict \<Rightarrow> pstr \<times> string \<Rightarrow> pyerror + pydict" where
  "process_label soup data entry =
     (case get_value_by_label soup (fst entry) of
        None \<Rightarrow> Inr data
      | Some value \<Rightarrow> if value = [] then Inr data else handle_field data (snd entry) value)"

fun run_labels :: "node list \<Rightarrow> (pstr \<times> string) list \<Rightarrow> pydict \<Rightarrow> pyerror + pydict" where
  "run_labels soup [] data = Inr data"
| "run_labels soup (entry # entries) data =
     (case process_label soup data entry of
        Inl e \<Rightarrow> Inl e
      | Inr data' \<Rightarrow> run_labels soup entries data')"

text \<open>
  The keys that the loop body can write for an output key of the table, and all the keys
  that the loop and the derived-value calculator can write.
\<close>

definition written_keys :: "string \<Rightarrow> string list" where
  "written_keys output_key =
     (if output_key = ''address'' then [''prefecture'', ''city'', ''district'', ''chome_banchi'']
      else if output_key = ''facing'' then map snd JP_TO_EN_FACING
      else if output_key = ''features'' then map snd FEATURES_MAPPING @ DEFAULT_FEATURES
      else if output_key = ''floor_no/floors'' then [''floor_no'', ''floors'']
      else if output_key = ''deposit/security_deposit''
        then [''months_security_deposit'', ''numeric_security_deposit'']
      else if output_key = ''key_money/amortization'' then [''months_key'', ''numeric_key'']
      else [output_key])"

definition fee_keys :: "string list" where
  "fee_keys = [''months_guarantor'', ''numeric_guarantor'', ''months_agency'']"

definition label_keys :: "(pstr \<times> string) list \<Rightarrow> string list" where
  "label_keys entries = concat (map (\<lambda>entry. written_keys (snd entry)) entries)"

definition normalizer_keys :: "string list" where
  "normalizer_keys = label_keys UI_MAPPING @ fee_keys"

section \<open>The derived-value calculator\<close>

text \<open>The local \<^verbatim>\<open>rent\<close> is the integer 0 or a float.\<close>

datatype pynum = PyInt int | PyFloat pyfloat

text \<open>
  \<^verbatim>\<open>data.get(key)\<close> and the truth value of what it returns: \<^verbatim>\<open>None\<close>, the empty
  string and the float zero are false.
\<close>

definition py_truthy :: "pyval option \<Rightarrow> bool" where
  "py_truthy v =
     (case v of
        None \<Rightarrow> False
      | Some PNone \<Rightarrow> False
      | Some (PStr s) \<Rightarrow> s \<noteq> []
      | Some (PFloat f) \<Rightarrow> float_truthy f)"

text \<open>
  Lines 218 to 225.  A float has no \<^verbatim>\<open>split\<close>, and the \<^verbatim>\<open>except\<close> clause takes
  \<^verbatim>\<open>ValueError\<close> only; every other exception leaves the function.
\<close>

definition parse_rent :: "pyval option \<Rightarrow> pyerror + pynum" where
  "parse_rent monthly_rent =
     (if py_truthy monthly_rent \<and> monthly_rent \<noteq> Some (PStr (u ''-'')) then
        (case monthly_rent of
           Some (PStr s) \<Rightarrow>
             (case py_split 0x301C s of
                [] \<Rightarrow> Inl IndexError
              | first # others \<Rightarrow>
                  (let rent_str = py_strip (py_remove (u '','') (py_remove [0x4E07, 0x5186] first))
                   in case py_float rent_str of
                        Inl e \<Rightarrow> if e = ValueError then Inr (PyInt 0) else Inl e
                      | Inr f \<Rightarrow> Inr (PyFloat (fmul f (Num False 10000)))))
         | _ \<Rightarrow> Inl AttributeError)
      else Inr (PyInt 0))"

text \<open>
  \<^verbatim>\<open>rent * c\<close> for a float \<^verbatim>\<open>c\<close>: an integer is converted to a float first, which
  raises \<^verbatim>\<open>OverflowError\<close> beyond the range of the floats.
\<close>

definition int_to_float :: "int \<Rightarrow> pyerror + pyfloat" where
  "int_to_float i =
     (case float_of_rat (i < 0) (of_int \<bar>i\<bar>) of
        Infty s \<Rightarrow> Inl OverflowError
      | f \<Rightarrow> Inr f)"

definition as_float :: "pynum \<Rightarrow> pyerror + pyfloat" where
  "as_float n = (case n of PyInt i \<Rightarrow> int_to_float i | PyFloat f \<Rightarrow> Inr f)"

definition num_times :: "pynum \<Rightarrow> pyfloat \<Rightarrow> pyerror + pyfloat" where
  "num_times rent c = (case as_float rent of Inl e \<Rightarrow> Inl e | Inr f \<Rightarrow> Inr (fmul f c))"

text \<open>
  \<^verbatim>\<open>if not data.get(key): data[key] = round(rent * c, 0)\<close>; the product is computed
  only when the key is not set.
\<close>

definition derive_fee :: "pynum \<Rightarrow> string \<Rightarrow> pyfloat \<Rightarrow> pydict \<Rightarrow> pyerror + pydict" where
  "derive_fee rent key c data =
     (if \<not> py_truthy (data key) then
        (case num_times rent c of
           Inl e \<Rightarrow> Inl e
         | Inr p \<Rightarrow> Inr (data(key \<mapsto> PFloat (py_round0 p))))
      else Inr data)"

text \<open>The float literals \<^verbatim>\<open>0.5\<close>, \<^verbatim>\<open>1.0\<close> and \<^verbatim>\<open>1.1\<close>.\<close>

definition lit_0_5 :: pyfloat where
  "lit_0_5 = float_of_rat False (5 / 10)"

definition lit_1_0 :: pyfloat where
  "lit_1_0 = float_of_rat False 1"

definition lit_1_1 :: pyfloat where
  "lit_1_1 = float_of_rat False (11 / 10)"

definition derive_fees :: "pynum \<Rightarrow> pydict \<Rightarrow> pyerror + pydict" where
  "derive_fees rent data =
     (case derive_fee rent ''months_guarantor'' lit_0_5 data of
        Inl e \<Rightarrow> Inl e
      | Inr d1 \<Rightarrow>
          (case derive_fee rent ''numeric_guarantor'' lit_1_0 d1 of
             Inl e \<Rightarrow> Inl e
           | Inr d2 \<Rightarrow> derive_fee rent ''months_agency'' lit_1_1 d2))"

section \<open>The image collector\<close>

definition image_category_key :: "nat \<Rightarrow> string" where
  "image_category_key i = ''image_category_'' @ str_nat i"

definition image_url_key :: "nat \<Rightarrow> string" where
  "image_url_key i = ''image_url_'' @ str_nat i"

text \<open>\<^verbatim>\<open>img.get(name)\<close>, and \<^verbatim>\<open>a or b\<close> on what it returns.\<close>

definition attr_truthy :: "pstr option \<Rightarrow> bool" where
  "attr_truthy a = (case a of None \<Rightarrow> False | Some s \<Rightarrow> s \<noteq> [])"

definition py_or :: "pstr option \<Rightarrow> pstr option \<Rightarrow> pstr option" where
  "py_or a b = (if attr_truthy a then a else b)"

definition image_source :: "(string \<times> pstr) list \<Rightarrow> pstr option" where
  "image_source img =
     py_or (map_of img ''src'') (py_or (map_of img ''data-src'') (map_of img ''data-lazy''))"

definition site_origin :: pstr where
  "site_origin = u ''https://rent.tokyu-housing-lease.co.jp''"

definition resolve_url :: "pstr \<Rightarrow> pstr" where
  "resolve_url url = (if prefix (u ''/'') url then site_origin @ url else url)"

definition image_category :: "(string \<times> pstr) list \<Rightarrow> pstr" where
  "image_category img =
     (case map_of img ''alt'' of
        None \<Rightarrow> u ''None''
      | Some a \<Rightarrow> if a \<noteq> [] then a else u ''None'')"

text \<open>
  The loop over the images, with the counter and the record as its state; it leaves at
  the first image that comes when the counter has reached \<^verbatim>\<open>max_images\<close>.
\<close>

fun collect_images ::
  "nat \<Rightarrow> (string \<times> pstr) list list \<Rightarrow> nat \<times> pydict \<Rightarrow> nat \<times> pydict" where
  "collect_images max_images [] (count, data) = (count, data)"
| "collect_images max_images (img # imgs) (count, data) =
     (if max_images \<le> count then (count, data)
      else (case image_source img of
              None \<Rightarrow> collect_images max_images imgs (count, data)
            | Some url \<Rightarrow>
                if url = [] then collect_images max_images imgs (count, data)
                else collect_images max_images imgs
                       (count + 1,
                        data(image_category_key (count + 1) \<mapsto> PStr (image_category img),
                             image_url_key (count + 1) \<mapsto> PStr (resolve_url url)))))"

text \<open>\<^verbatim>\<open>for i in range(count + 1, max_images + 1)\<close>\<close>

definition fill_remaining :: "nat \<Rightarrow> nat \<Rightarrow> pydict \<Rightarrow> pydict" where
  "fill_remaining count max_images data =
     fold (\<lambda>i d. d(image_category_key i \<mapsto> PNone, image_url_key i \<mapsto> PNone))
          [count + 1 ..< max_images + 1] data"

definition parse_images :: "node list \<Rightarrow> pydict \<Rightarrow> nat \<Rightarrow> pydict" where
  "parse_images soup data max_images =
     (case collect_images max_images (select_tag ''img'' soup) (0, data) of
        (count, data') \<Rightarrow> fill_remaining count max_images data')"

text \<open>
  The images that take a slot, and what the collector stores for one of them.
\<close>

definition valid_image :: "(string \<times> pstr) list \<Rightarrow> bool" where
  "valid_image img = attr_truthy (image_source img)"

definition image_url :: "(string \<times> pstr) list \<Rightarrow> pstr" where
  "image_url img = (case image_source img of None \<Rightarrow> [] | Some url \<Rightarrow> resolve_url url)"

section \<open>The main function\<close>

text \<open>
  \<^verbatim>\<open>parse_property\<close> after the fetch: \<^verbatim>\<open>OUTPUT_KEYS\<close> is the list imported from the
  module \<^verbatim>\<open>fields\<close>, \<^verbatim>\<open>now\<close> the formatted time of the call, \<^verbatim>\<open>soup\<close> the parsed
  page.
\<close>

definition initial_record :: "string list \<Rightarrow> pstr \<Rightarrow> pstr \<Rightarrow> pydict" where
  "initial_record OUTPUT_KEYS url now =
     (fold (\<lambda>key d. d(key \<mapsto> PNone)) OUTPUT_KEYS Map.empty)
       (''link'' \<mapsto> PStr url, ''create_date'' \<mapsto> PStr now)"

definition parse_property :: "string list \<Rightarrow> pstr \<Rightarrow> pstr \<Rightarrow> node list \<Rightarrow> pyerror + pydict" where
  "parse_property OUTPUT_KEYS url now soup =
     (case run_labels soup UI_MAPPING (initial_record OUTPUT_KEYS url now) of
        Inl e \<Rightarrow> Inl e
      | Inr data \<Rightarrow>
          (case parse_rent (data ''monthly_rent'') of
             Inl e \<Rightarrow> Inl e
           | Inr rent \<Rightarrow>
               (case derive_fees rent data of
                  Inl e \<Rightarrow> Inl e
                | Inr data' \<Rightarrow> Inr (parse_images soup data' 16))))"

text \<open>The value under a key of the returned record, or the exception raised.\<close>

definition result_get :: "pyerror + pydict \<Rightarrow> string \<Rightarrow> pyerror + pyval option" where
  "result_get r key = (case r of Inl e \<Rightarrow> Inl e | Inr d \<Rightarrow> Inr (d key))"

text \<open>The keys of the returned record, or the exception raised.\<close>

definition result_keys :: "pyerror + pydict \<Rightarrow> pyerror + string set" where
  "result_keys r = (case r of Inl e \<Rightarrow> Inl e | Inr d \<Rightarrow> Inr (dom d))"

text \<open>The keys of the image slots.\<close>

definition image_slot_keys :: "nat \<Rightarrow> string set" where
  "image_slot_keys max_images = image_category_key ` {1..max_images} \<union> image_url_key ` {1..max_images}"

section \<open>Sample pages\<close>

text \<open>
  A listing page with an address, a facing text that is no compass label, a rent range, a
  deposit with blanks around the slash, a key-money field without a slash, a features
  field, and four images of which the second has no source.
\<close>

definition sample_listing :: "node list" where
  "sample_listing =
    [Tag ''html'' []
      [Tag ''body'' []
        [Tag ''dl'' []
         [Tag ''dt'' [] [Text [0x6240, 0x5728, 0x5730]],
          Tag ''dd'' [] [Text [0x6771, 0x4EAC, 0x90FD, 0x6E0B, 0x8C37, 0x533A, 0x9053, 0x7384, 0x5742, 0x31, 0x2D, 0x32, 0x2D, 0x33]],
          Tag ''dt'' [] [Text [0x65B9, 0x4F4D]],
          Tag ''dd'' [] [Text [0x5357, 0x5411, 0x304D]],
          Tag ''dt'' [] [Text [0x8CC3, 0x6599]],
          Tag ''dd'' [] [Text [0x38, 0x2E, 0x35, 0x301C, 0x39, 0x2E, 0x32, 0x4E07, 0x5186]],
          Tag ''dt'' [] [Text [0x6577, 0x91D1, 0x2F, 0x4FDD, 0x8A3C, 0x91D1]],
          Tag ''dd'' [] [Text (u ''- / 300,000'')],
          Tag ''dt'' [] [Text [0x793C, 0x91D1, 0x2F, 0x511F, 0x5374, 0x30FB, 0x6577, 0x5F15]],
          Tag ''dd'' [] [Text [0x306A, 0x3057]],
          Tag ''dt'' [] [Text [0x8A2D, 0x5099, 0x30FB, 0x6761, 0x4EF6]],
          Tag ''dd'' [] [Text [0x30D0, 0x30EB, 0x30B3, 0x30CB, 0x30FC, 0x3001, 0x6D74, 0x5BA4]]],
         Tag ''img'' [(''src'', u ''/a.jpg''), (''alt'', u ''front'')] [],
         Tag ''img'' [(''alt'', u ''no source'')] [],
         Tag ''img'' [(''data-src'', u ''https://cdn.example/b.jpg'')] [],
         Tag ''img'' [(''src'', []), (''data-lazy'', u ''/c.jpg''), (''alt'', [])] []]]]"

text \<open>A page with a plain rent and a deposit, in a table, and nothing else.\<close>

definition bare_listing :: "node list" where
  "bare_listing =
    [Tag ''table'' []
      [Tag ''tr'' [] [Tag ''th'' [] [Text [0x8CC3, 0x6599]], Tag ''td'' [] [Text [0x31, 0x30, 0x4E07, 0x5186]]],
       Tag ''tr'' [] [Tag ''th'' [] [Text [0x6577, 0x91D1, 0x2F, 0x4FDD, 0x8A3C, 0x91D1]], Tag ''td'' [] [Text (u ''2/300,000'')]]]]"

text \<open>A page whose rent is the placeholder dash.\<close>

definition dash_listing :: "node list" where
  "dash_listing =
    [Tag ''dl'' [] [Tag ''dt'' [] [Text [0x8CC3, 0x6599]], Tag ''dd'' [] [Text (u '' - '')]]]"

definition sample_url :: pstr where
  "sample_url = u ''https://rent.tokyu-housing-lease.co.jp/rent/1''"

definition sample_now :: pstr where
  "sample_now = u ''2024-01-01 00:00:00''"

section \<open>Properties of the address parser\<close>

lemma match_lazy_upto_prefix:
  "match_lazy_upto cls s = Some p \<Longrightarrow> p @ drop (length p) s = s"
proof (induction s arbitrary: p)
  case Nil
  then show ?case by simp
next
  case (Cons c cs)
  show ?case
  proof (cases "c \<in> set cls")
    case True
    with Cons.prems show ?thesis by auto
  next
    case False
    with Cons.prems obtain q where q: "match_lazy_upto cls cs = Some q" and p: "p = c # q"
      by (auto split: if_splits)
    from Cons.IH [OF q] p show ?thesis by simp
  qed
qed

lemma or_empty_after_lazy:
  "or_empty (match_lazy_upto cls s) @ after_group (match_lazy_upto cls s) s = s"
  by (cases "match_lazy_upto cls s")
     (auto simp: or_empty_def after_group_def dest: match_lazy_upto_prefix)

lemma or_empty_after_nondigits:
  "or_empty (match_nondigits s) @ after_group (match_nondigits s) s = s"
proof -
  have "takeWhile (\<lambda>c. \<not> is_decimal c) s
          @ drop (length (takeWhile (\<lambda>c. \<not> is_decimal c) s)) s = s"
    by (metis takeWhile_dropWhile_id dropWhile_eq_drop)
  then show ?thesis
    by (simp add: match_nondigits_def or_empty_def after_group_def Let_def)
qed

text \<open>
  Claim C1.  For every address string, the prefecture, the city, the district and the
  remainder returned by the address parser, concatenated in that order with a missing
  component read as the empty string, give back the address string.
\<close>

theorem address_round_trip:
  "(case parse_japanese_address address of
      (prefecture, city, district, chome_banchi) \<Rightarrow>
        or_empty prefecture @ or_empty city @ or_empty district @ chome_banchi) = address"
proof -
  let ?p = "match_lazy_upto prefecture_class address"
  let ?r1 = "after_group ?p address"
  let ?c = "match_lazy_upto city_class ?r1"
  let ?r2 = "after_group ?c ?r1"
  let ?d = "match_nondigits ?r2"
  have "or_empty ?p @ or_empty ?c @ or_empty ?d @ after_group ?d ?r2
          = or_empty ?p @ or_empty ?c @ ?r2"
    by (simp add: or_empty_after_nondigits)
  also have "\<dots> = or_empty ?p @ ?r1"
    by (simp add: or_empty_after_lazy)
  also have "\<dots> = address"
    by (simp add: or_empty_after_lazy)
  finally show ?thesis
    by (simp add: parse_japanese_address_def Let_def)
qed

section \<open>Properties of the field normalizer\<close>

lemma py_split_not_Nil: "py_split sep s \<noteq> []"
  by (induction s) (auto split: list.splits)

lemma fold_upd_const:
  "fold (\<lambda>k d. d(k \<mapsto> v)) ks d x = (if x \<in> set ks then Some v else d x)"
  by (induction ks arbitrary: d) auto

lemma fold_upd_pairs_other:
  "x \<notin> snd ` set ps \<Longrightarrow> fold (\<lambda>(a, k) d. d(k \<mapsto> f a)) ps d x = d x"
  by (induction ps arbitrary: d) auto

lemma fold_upd_pairs_dom:
  "dom (fold (\<lambda>(a, k) d. d(k \<mapsto> f a)) ps d) = dom d \<union> snd ` set ps"
  by (induction ps arbitrary: d) auto

lemma fold_upd_const_dom:
  "dom (fold (\<lambda>k d. d(k \<mapsto> v)) ks d) = dom d \<union> set ks"
  by (induction ks arbitrary: d) auto

lemma map_of_Some_snd: "map_of ps k = Some x \<Longrightarrow> x \<in> snd ` set ps"
  by (induction ps) (auto split: if_splits)

subsection \<open>What each branch leaves alone, and the keys it adds\<close>

lemma set_address_other:
  "x \<notin> {''prefecture'', ''city'', ''district'', ''chome_banchi''} \<Longrightarrow> set_address d v x = d x"
  by (simp add: set_address_def split: prod.splits)

lemma set_address_dom:
  "dom (set_address d v) = dom d \<union> {''prefecture'', ''city'', ''district'', ''chome_banchi''}"
  by (auto simp: set_address_def split: prod.splits)

lemma set_facing_other:
  "x \<notin> snd ` set JP_TO_EN_FACING \<Longrightarrow> set_facing d v x = d x"
  by (auto simp: set_facing_def Let_def fold_upd_const split: option.splits
      dest: map_of_Some_snd)

lemma set_facing_dom: "dom (set_facing d v) = dom d \<union> snd ` set JP_TO_EN_FACING"
proof (cases "map_of JP_TO_EN_FACING (py_strip v)")
  case None
  then show ?thesis by (simp add: set_facing_def fold_upd_const_dom)
next
  case (Some k)
  then have "k \<in> snd ` set JP_TO_EN_FACING" by (rule map_of_Some_snd)
  with Some show ?thesis
    by (simp add: set_facing_def Let_def fold_upd_const_dom insert_absorb)
qed

lemma set_features_other:
  "x \<notin> snd ` set FEATURES_MAPPING \<Longrightarrow> x \<notin> set DEFAULT_FEATURES \<Longrightarrow> set_features d v x = d x"
  by (simp add: set_features_def Let_def fold_upd_const fold_upd_pairs_other)

lemma set_features_dom:
  "dom (set_features d v) = dom d \<union> snd ` set FEATURES_MAPPING \<union> set DEFAULT_FEATURES"
  by (simp add: set_features_def Let_def fold_upd_const_dom fold_upd_pairs_dom)

lemma set_floor_other: "x \<notin> {''floor_no'', ''floors''} \<Longrightarrow> set_floor d v x = d x"
  by (simp add: set_floor_def Let_def)

lemma set_floor_dom: "dom (set_floor d v) = dom d \<union> {''floor_no'', ''floors''}"
  by (auto simp: set_floor_def Let_def)

lemma split_pair_other: "x \<notin> {k1, k2} \<Longrightarrow> split_pair d k1 k2 v x = d x"
  by (simp add: split_pair_def Let_def)

lemma split_pair_dom:
  "dom d \<subseteq> dom (split_pair d k1 k2 v)" "dom (split_pair d k1 k2 v) \<subseteq> dom d \<union> {k1, k2}"
  by (auto simp: split_pair_def Let_def)

lemma rent_text_total: "\<exists>kept. rent_text v = Inr kept"
  by (cases "py_split 0x301C v") (simp_all add: rent_text_def py_split_not_Nil)

lemma set_monthly_rent_total: "\<exists>d'. set_monthly_rent d v = Inr d'"
  using rent_text_total [of v] by (auto simp: set_monthly_rent_def)

lemma set_monthly_rent_other:
  "set_monthly_rent d v = Inr d' \<Longrightarrow> x \<noteq> ''monthly_rent'' \<Longrightarrow> d' x = d x"
  by (auto simp: set_monthly_rent_def split: sum.splits)

lemma set_monthly_rent_dom:
  "set_monthly_rent d v = Inr d' \<Longrightarrow> dom d' = dom d \<union> {''monthly_rent''}"
  by (auto simp: set_monthly_rent_def split: sum.splits)

lemma handle_field_total: "\<exists>d'. handle_field d key v = Inr d'"
  using set_monthly_rent_total by (simp add: handle_field_def)

lemma handle_field_other:
  assumes "handle_field d key v = Inr d'" and "x \<notin> set (written_keys key)"
  shows "d' x = d x"
  using assms
  by (auto simp: handle_field_def written_keys_def set_address_other set_facing_other
        set_features_other set_floor_other split_pair_other
      split: if_splits dest: set_monthly_rent_other)

lemma grows_by_eq: "B = A \<union> W \<Longrightarrow> A \<subseteq> B \<and> B \<subseteq> A \<union> W"
  by simp

lemma handle_field_dom:
  assumes "handle_field d key v = Inr d'"
  shows "dom d \<subseteq> dom d' \<and> dom d' \<subseteq> dom d \<union> set (written_keys key)"
proof -
  consider "key = ''address''" | "key = ''facing''" | "key = ''features''"
    | "key = ''floor_no/floors''" | "key = ''deposit/security_deposit''"
    | "key = ''key_money/amortization''" | "key = ''monthly_rent''"
    | "key \<noteq> ''address''" "key \<noteq> ''facing''" "key \<noteq> ''features''"
      "key \<noteq> ''floor_no/floors''" "key \<noteq> ''deposit/security_deposit''"
      "key \<noteq> ''key_money/amortization''" "key \<noteq> ''monthly_rent''"
    by blast
  then show ?thesis
  proof cases
    case 1
    with assms have "d' = set_address d v"
      by (simp add: handle_field_def)
    moreover from 1 have "set (written_keys key) = {''prefecture'', ''city'', ''district'', ''chome_banchi''}"
      by (simp add: written_keys_def)
    ultimately show ?thesis
      by (intro grows_by_eq) (simp only: set_address_dom)
  next
    case 2
    with assms have "d' = set_facing d v"
      by (simp add: handle_field_def)
    moreover from 2 have "set (written_keys key) = snd ` set JP_TO_EN_FACING"
      by (simp add: written_keys_def)
    ultimately show ?thesis
      by (intro grows_by_eq) (simp only: set_facing_dom)
  next
    case 3
    with assms have "d' = set_features d v"
      by (simp add: handle_field_def)
    moreover from 3 have "set (written_keys key) = snd ` set FEATURES_MAPPING \<union> set DEFAULT_FEATURES"
      by (simp add: written_keys_def)
    ultimately show ?thesis
      by (intro grows_by_eq) (simp only: set_features_dom Un_assoc)
  next
    case 4
    with assms have "d' = set_floor d v"
      by (simp add: handle_field_def)
    moreover from 4 have "set (written_keys key) = {''floor_no'', ''floors''}"
      by (simp add: written_keys_def)
    ultimately show ?thesis
      by (intro grows_by_eq) (simp only: set_floor_dom)
  next
    case 5
    with assms have "d' = split_pair d ''months_security_deposit'' ''numeric_security_deposit'' v"
      by (simp add: handle_field_def)
    moreover from 5 have "set (written_keys key) = {''months_security_deposit'', ''numeric_security_deposit''}"
      by (simp add: written_keys_def)
    ultimately show ?thesis
      by (simp only: split_pair_dom)
  next
    case 6
    with assms have "d' = split_pair d ''months_key'' ''numeric_key'' v"
      by (simp add: handle_field_def)
    moreover from 6 have "set (written_keys key) = {''months_key'', ''numeric_key''}"
      by (simp add: written_keys_def)
    ultimately show ?thesis
      by (simp only: split_pair_dom)
  next
    case 7
    with assms have "set_monthly_rent d v = Inr d'"
      by (simp add: handle_field_def)
    then have "dom d' = dom d \<union> {''monthly_rent''}"
      by (rule set_monthly_rent_dom)
    moreover from 7 have "set (written_keys key) = {''monthly_rent''}"
      by (simp add: written_keys_def)
    ultimately show ?thesis
      by (intro grows_by_eq) (simp only:)
  next
    case 8
    with assms have "d' = d(key \<mapsto> PStr v)"
      by (simp add: handle_field_def)
    then have "dom d' = dom d \<union> {key}"
      by simp
    moreover from 8 have "set (written_keys key) = {key}"
      by (simp add: written_keys_def)
    ultimately show ?thesis
      by (intro grows_by_eq) (simp only:)
  qed
qed

lemma process_label_total: "\<exists>d'. process_label soup d entry = Inr d'"
  using handle_field_total by (auto simp: process_label_def split: option.splits)

lemma process_label_other:
  "process_label soup d entry = Inr d' \<Longrightarrow> x \<notin> set (written_keys (snd entry)) \<Longrightarrow> d' x = d x"
  by (auto simp: process_label_def split: option.splits if_splits dest: handle_field_other)

lemma process_label_dom:
  assumes "process_label soup d entry = Inr d'"
  shows "dom d \<subseteq> dom d' \<and> dom d' \<subseteq> dom d \<union> set (written_keys (snd entry))"
proof (cases "get_value_by_label soup (fst entry)")
  case None
  with assms show ?thesis by (simp add: process_label_def)
next
  case (Some v)
  show ?thesis
  proof (cases "v = []")
    case True
    with Some assms show ?thesis by (simp add: process_label_def)
  next
    case False
    with Some assms have "handle_field d (snd entry) v = Inr d'"
      by (simp add: process_label_def)
    then show ?thesis by (rule handle_field_dom)
  qed
qed

lemma run_labels_total: "\<exists>d'. run_labels soup entries d = Inr d'"
proof (induction entries arbitrary: d)
  case Nil
  show ?case by simp
next
  case (Cons entry entries)
  obtain d1 where "process_label soup d entry = Inr d1"
    using process_label_total by blast
  with Cons.IH [of d1] show ?case by simp
qed

lemma run_labels_other:
  "run_labels soup entries d = Inr d' \<Longrightarrow> x \<notin> set (label_keys entries) \<Longrightarrow> d' x = d x"
proof (induction entries arbitrary: d)
  case Nil
  then show ?case by simp
next
  case (Cons entry entries)
  from Cons.prems(1) obtain d1 where d1: "process_label soup d entry = Inr d1"
    and rest: "run_labels soup entries d1 = Inr d'"
    by (auto split: sum.splits)
  from Cons.prems(2) have "x \<notin> set (written_keys (snd entry))" and "x \<notin> set (label_keys entries)"
    by (auto simp: label_keys_def)
  with Cons.IH [OF rest] process_label_other [OF d1] show ?case by simp
qed

lemma run_labels_dom:
  assumes "run_labels soup entries d = Inr d'"
  shows "dom d \<subseteq> dom d' \<and> dom d' \<subseteq> dom d \<union> set (label_keys entries)"
  using assms
proof (induction entries arbitrary: d)
  case Nil
  then show ?case by (simp add: label_keys_def)
next
  case (Cons entry entries)
  from Cons.prems obtain d1 where d1: "process_label soup d entry = Inr d1"
    and rest: "run_labels soup entries d1 = Inr d'"
    by (auto split: sum.splits)
  have "set (label_keys (entry # entries)) = set (written_keys (snd entry)) \<union> set (label_keys entries)"
    by (simp add: label_keys_def)
  with Cons.IH [OF rest] process_label_dom [OF d1] show ?case
    by blast
qed

lemma run_labels_append:
  "run_labels soup (xs @ ys) d =
     (case run_labels soup xs d of Inl e \<Rightarrow> Inl e | Inr d1 \<Rightarrow> run_labels soup ys d1)"
  by (induction xs arbitrary: d) (auto split: sum.splits)

section \<open>Properties of the image collector\<close>

lemma digit_char_inj: "a < 10 \<Longrightarrow> b < 10 \<Longrightarrow> digit_char a = digit_char b \<Longrightarrow> a = b"
proof -
  assume a: "a < 10" and b: "b < 10" and eq: "digit_char a = digit_char b"
  have "distinct ''0123456789''" by simp
  moreover have "a < length ''0123456789''" "b < length ''0123456789''"
    using a b by simp_all
  ultimately show "a = b"
    using eq unfolding digit_char_def by (simp only: nth_eq_iff_index_eq)
qed

lemma str_nat_not_Nil: "str_nat n \<noteq> []"
  by (subst str_nat.simps) simp

lemma str_nat_inj: "str_nat n = str_nat m \<Longrightarrow> n = m"
proof (induction n arbitrary: m rule: str_nat.induct)
  case (1 n)
  show ?case
  proof (cases "n < 10")
    case n: True
    show ?thesis
    proof (cases "m < 10")
      case True
      with n "1.prems" show ?thesis
        by (simp add: str_nat.simps [of n] str_nat.simps [of m] digit_char_inj)
    next
      case False
      with n "1.prems" show ?thesis
        using str_nat_not_Nil [of "m div 10"]
        by (simp add: str_nat.simps [of n] str_nat.simps [of m])
    qed
  next
    case n: False
    show ?thesis
    proof (cases "m < 10")
      case True
      with n "1.prems" show ?thesis
        using str_nat_not_Nil [of "n div 10"]
        by (simp add: str_nat.simps [of n] str_nat.simps [of m])
    next
      case False
      with n "1.prems" have eq: "str_nat (n div 10) = str_nat (m div 10)"
        and dig: "digit_char (n mod 10) = digit_char (m mod 10)"
        by (simp_all add: str_nat.simps [of n] str_nat.simps [of m])
      from "1.IH" [OF n eq] have "n div 10 = m div 10" .
      moreover from dig have "n mod 10 = m mod 10"
        by (intro digit_char_inj) simp_all
      ultimately show ?thesis
        by (metis div_mult_mod_eq)
    qed
  qed
qed

lemma image_category_key_inj [simp]: "image_category_key i = image_category_key j \<longleftrightarrow> i = j"
  by (auto simp: image_category_key_def dest: str_nat_inj)

lemma image_url_key_inj [simp]: "image_url_key i = image_url_key j \<longleftrightarrow> i = j"
  by (auto simp: image_url_key_def dest: str_nat_inj)

lemma image_keys_differ [simp]:
  "image_category_key i \<noteq> image_url_key j" "image_url_key j \<noteq> image_category_key i"
  by (simp_all add: image_category_key_def image_url_key_def)

lemma valid_image_iff:
  "valid_image img \<longleftrightarrow> (\<exists>url. image_source img = Some url \<and> url \<noteq> [])"
  by (auto simp: valid_image_def attr_truthy_def split: option.splits)

lemma collect_images_count:
  "count \<le> mx \<Longrightarrow>
   fst (collect_images mx imgs (count, d)) = min mx (count + length (filter valid_image imgs))"
  by (induction imgs arbitrary: count d) (auto simp: valid_image_iff split: option.splits)

lemma collect_images_other:
  "(\<And>i. count < i \<Longrightarrow> x \<noteq> image_category_key i \<and> x \<noteq> image_url_key i) \<Longrightarrow>
   snd (collect_images mx imgs (count, d)) x = d x"
proof (induction imgs arbitrary: count d)
  case Nil
  show ?case by simp
next
  case (Cons img imgs)
  have keep: "snd (collect_images mx imgs (count, d)) x = d x"
    by (rule Cons.IH) (rule Cons.prems)
  have step: "snd (collect_images mx imgs (Suc count, d')) x = d' x" for d'
    by (rule Cons.IH) (simp add: Cons.prems)
  from Cons.prems [of "Suc count"] have "x \<noteq> image_category_key (Suc count)"
    "x \<noteq> image_url_key (Suc count)" by simp_all
  with keep step show ?case
    by (simp split: option.splits)
qed


lemma collect_images_slot:
  assumes "count < i" and "i \<le> min mx (count + length (filter valid_image imgs))"
  shows "snd (collect_images mx imgs (count, d)) (image_category_key i) =
           Some (PStr (image_category (filter valid_image imgs ! (i - count - 1)))) \<and>
         snd (collect_images mx imgs (count, d)) (image_url_key i) =
           Some (PStr (image_url (filter valid_image imgs ! (i - count - 1))))"
  using assms
proof (induction imgs arbitrary: count d)
  case Nil
  then show ?case by simp
next
  case (Cons img imgs)
  from Cons.prems have below: "count < mx" by simp
  show ?case
  proof (cases "valid_image img")
    case False
    then have skip: "collect_images mx (img # imgs) (count, d) = collect_images mx imgs (count, d)"
      using below by (auto simp: valid_image_iff split: option.splits)
    from False Cons.prems have "i \<le> min mx (count + length (filter valid_image imgs))"
      by simp
    from Cons.IH [OF Cons.prems(1) this, of d] False skip show ?thesis
      by simp
  next
    case True
    then obtain url where url: "image_source img = Some url" "url \<noteq> []"
      by (auto simp: valid_image_iff)
    define d' where "d' = d(image_category_key (Suc count) \<mapsto> PStr (image_category img),
      image_url_key (Suc count) \<mapsto> PStr (resolve_url url))"
    have step: "collect_images mx (img # imgs) (count, d) = collect_images mx imgs (Suc count, d')"
      using below url by (simp add: d'_def)
    show ?thesis
    proof (cases "i = Suc count")
      case here: True
      have "snd (collect_images mx imgs (Suc count, d')) (image_category_key i) = d' (image_category_key i)"
        by (rule collect_images_other) (simp add: here)
      moreover have "snd (collect_images mx imgs (Suc count, d')) (image_url_key i) = d' (image_url_key i)"
        by (rule collect_images_other) (simp add: here)
      moreover have "d' (image_category_key i) = Some (PStr (image_category img))"
        "d' (image_url_key i) = Some (PStr (resolve_url url))"
        by (simp_all add: d'_def here)
      moreover have "filter valid_image (img # imgs) ! (i - count - 1) = img"
        using True here by simp
      moreover have "image_url img = resolve_url url"
        using url by (simp add: image_url_def)
      ultimately show ?thesis
        by (simp only: step)
    next
      case False
      with Cons.prems have lt: "Suc count < i" by simp
      from Cons.prems True have le: "i \<le> min mx (Suc count + length (filter valid_image imgs))"
        by simp
      from lt have idx: "i - count - 1 = Suc (i - Suc count - 1)" by simp
      from True idx have "filter valid_image (img # imgs) ! (i - count - 1) =
          filter valid_image imgs ! (i - Suc count - 1)"
        by simp
      with Cons.IH [OF lt le, of d'] show ?thesis
        by (simp only: step)
    qed
  qed
qed

lemma fold_slots_none:
  "fold (\<lambda>i d. d(image_category_key i \<mapsto> PNone, image_url_key i \<mapsto> PNone)) is d x =
     (if \<exists>i\<in>set is. x = image_category_key i \<or> x = image_url_key i then Some PNone else d x)"
  by (induction "is" arbitrary: d) auto

lemma fill_remaining_apply:
  "fill_remaining count mx d x =
     (if \<exists>i. count < i \<and> i \<le> mx \<and> (x = image_category_key i \<or> x = image_url_key i)
      then Some PNone else d x)"
proof -
  have "(\<exists>i\<in>set [count + 1..<mx + 1]. x = image_category_key i \<or> x = image_url_key i) \<longleftrightarrow>
        (\<exists>i. count < i \<and> i \<le> mx \<and> (x = image_category_key i \<or> x = image_url_key i))"
    by auto
  then show ?thesis
    by (simp only: fill_remaining_def fold_slots_none)
qed

lemma parse_images_filled:
  assumes "1 \<le> i" and "i \<le> min mx (length (filter valid_image (select_tag ''img'' soup)))"
  shows "parse_images soup d mx (image_category_key i) =
           Some (PStr (image_category (filter valid_image (select_tag ''img'' soup) ! (i - 1))))"
    and "parse_images soup d mx (image_url_key i) =
           Some (PStr (image_url (filter valid_image (select_tag ''img'' soup) ! (i - 1))))"
proof -
  let ?imgs = "select_tag ''img'' soup"
  obtain count d' where c: "collect_images mx ?imgs (0, d) = (count, d')"
    by (cases "collect_images mx ?imgs (0, d)")
  have count: "count = min mx (length (filter valid_image ?imgs))"
    using collect_images_count [of 0 mx ?imgs d] c by simp
  from assms have "0 < i" and "i \<le> min mx (0 + length (filter valid_image ?imgs))"
    by simp_all
  from collect_images_slot [OF this, of d] c
  have slots: "d' (image_category_key i) = Some (PStr (image_category (filter valid_image ?imgs ! (i - 1))))"
    "d' (image_url_key i) = Some (PStr (image_url (filter valid_image ?imgs ! (i - 1))))"
    by simp_all
  from assms count have "\<not> count < i" by linarith
  then have "fill_remaining count mx d' (image_category_key i) = d' (image_category_key i)"
    "fill_remaining count mx d' (image_url_key i) = d' (image_url_key i)"
    by (auto simp: fill_remaining_apply)
  with slots c show "parse_images soup d mx (image_category_key i) =
           Some (PStr (image_category (filter valid_image ?imgs ! (i - 1))))"
    and "parse_images soup d mx (image_url_key i) =
           Some (PStr (image_url (filter valid_image ?imgs ! (i - 1))))"
    by (simp_all add: parse_images_def)
qed

lemma parse_images_padded:
  assumes "min mx (length (filter valid_image (select_tag ''img'' soup))) < i" and "i \<le> mx"
  shows "parse_images soup d mx (image_category_key i) = Some PNone"
    and "parse_images soup d mx (image_url_key i) = Some PNone"
proof -
  let ?imgs = "select_tag ''img'' soup"
  obtain count d' where c: "collect_images mx ?imgs (0, d) = (count, d')"
    by (cases "collect_images mx ?imgs (0, d)")
  have count: "count = min mx (length (filter valid_image ?imgs))"
    using collect_images_count [of 0 mx ?imgs d] c by simp
  with assms have "count < i \<and> i \<le> mx" by simp
  then have "fill_remaining count mx d' (image_category_key i) = Some PNone"
    "fill_remaining count mx d' (image_url_key i) = Some PNone"
    by (auto simp: fill_remaining_apply)
  with c show "parse_images soup d mx (image_category_key i) = Some PNone"
    and "parse_images soup d mx (image_url_key i) = Some PNone"
    by (simp_all add: parse_images_def)
qed

lemma parse_images_other:
  assumes "\<And>i. x \<noteq> image_category_key i \<and> x \<noteq> image_url_key i"
  shows "parse_images soup d mx x = d x"
proof -
  obtain count d' where c: "collect_images mx (select_tag ''img'' soup) (0, d) = (count, d')"
    by (cases "collect_images mx (select_tag ''img'' soup) (0, d)")
  have "snd (collect_images mx (select_tag ''img'' soup) (0, d)) x = d x"
    by (rule collect_images_other) (rule assms)
  with c have "d' x = d x" by simp
  moreover have "fill_remaining count mx d' x = d' x"
    using assms by (simp add: fill_remaining_apply)
  ultimately show ?thesis
    using c by (simp add: parse_images_def)
qed

lemma not_image_key:
  "take 6 x \<noteq> ''image_'' \<Longrightarrow> x \<noteq> image_category_key i \<and> x \<noteq> image_url_key i"
  by (auto simp: image_category_key_def image_url_key_def)


lemma collect_images_dom:
  "count \<le> mx \<Longrightarrow>
   dom (snd (collect_images mx imgs (count, d))) =
     dom d \<union> (image_category_key ` {i. count < i \<and> i \<le> min mx (count + length (filter valid_image imgs))})
           \<union> (image_url_key ` {i. count < i \<and> i \<le> min mx (count + length (filter valid_image imgs))})"
proof (induction imgs arbitrary: count d)
  case Nil
  have "{i. count < i \<and> i \<le> min mx (count + length (filter valid_image []))} = {}"
    by auto
  then show ?case by (simp only: collect_images.simps snd_conv image_empty Un_empty_right)
next
  case (Cons img imgs)
  show ?case
  proof (cases "count < mx")
    case False
    with Cons.prems have empty: "{i. count < i \<and> i \<le> min mx (count + length (filter valid_image (img # imgs)))} = {}"
      by auto
    from False have "collect_images mx (img # imgs) (count, d) = (count, d)"
      by simp
    then show ?thesis
      by (simp only: empty snd_conv image_empty Un_empty_right)
  next
    case below: True
    show ?thesis
    proof (cases "valid_image img")
      case False
      then have skip: "collect_images mx (img # imgs) (count, d) = collect_images mx imgs (count, d)"
        using below by (auto simp: valid_image_iff split: option.splits)
      from False Cons.IH [OF Cons.prems, of d] show ?thesis
        by (simp only: skip filter.simps if_False)
    next
      case True
      then obtain url where url: "image_source img = Some url" "url \<noteq> []"
        by (auto simp: valid_image_iff)
      define d' where "d' = d(image_category_key (Suc count) \<mapsto> PStr (image_category img),
        image_url_key (Suc count) \<mapsto> PStr (resolve_url url))"
      have step: "collect_images mx (img # imgs) (count, d) = collect_images mx imgs (Suc count, d')"
        using below url by (simp add: d'_def)
      let ?n = "min mx (Suc count + length (filter valid_image imgs))"
      have n: "min mx (count + length (filter valid_image (img # imgs))) = ?n"
        using True by simp
      have set_eq: "{i. count < i \<and> i \<le> ?n} = insert (Suc count) {i. Suc count < i \<and> i \<le> ?n}"
        using below by auto
      have dom': "dom d' = insert (image_category_key (Suc count)) (insert (image_url_key (Suc count)) (dom d))"
        by (auto simp: d'_def)
      from below have "Suc count \<le> mx" by simp
      from Cons.IH [OF this, of d'] show ?thesis
        unfolding step n set_eq dom' by auto
    qed
  qed
qed

lemma fill_remaining_dom:
  "dom (fill_remaining count mx d) =
     dom d \<union> image_category_key ` {i. count < i \<and> i \<le> mx} \<union> image_url_key ` {i. count < i \<and> i \<le> mx}"
proof -
  have "fill_remaining count mx d x \<noteq> None \<longleftrightarrow>
        x \<in> dom d \<union> image_category_key ` {i. count < i \<and> i \<le> mx} \<union> image_url_key ` {i. count < i \<and> i \<le> mx}" for x
    unfolding fill_remaining_apply by auto
  then show ?thesis
    unfolding dom_def by blast
qed

lemma parse_images_dom:
  "dom (parse_images soup d mx) =
     dom d \<union> image_category_key ` {1..mx} \<union> image_url_key ` {1..mx}"
proof -
  let ?imgs = "select_tag ''img'' soup"
  obtain count d' where c: "collect_images mx ?imgs (0, d) = (count, d')"
    by (cases "collect_images mx ?imgs (0, d)")
  have count: "count = min mx (length (filter valid_image ?imgs))"
    using collect_images_count [of 0 mx ?imgs d] c by simp
  let ?A = "{i. 0 < i \<and> i \<le> count}" and ?B = "{i. count < i \<and> i \<le> mx}"
  have d': "dom d' = dom d \<union> image_category_key ` ?A \<union> image_url_key ` ?A"
    using collect_images_dom [of 0 mx ?imgs d] c count by simp
  have U: "{1..mx} = ?A \<union> ?B"
    using count by auto
  have "dom (parse_images soup d mx) = dom (fill_remaining count mx d')"
    using c by (simp add: parse_images_def)
  also have "\<dots> = dom d \<union> image_category_key ` ?A \<union> image_url_key ` ?A
      \<union> image_category_key ` ?B \<union> image_url_key ` ?B"
    by (simp only: fill_remaining_dom d')
  also have "\<dots> = dom d \<union> image_category_key ` (?A \<union> ?B) \<union> image_url_key ` (?A \<union> ?B)"
    by (simp only: image_Un Un_assoc Un_left_commute)
  finally show ?thesis
    by (simp only: U)
qed

section \<open>Properties of the derived-value calculator and of the main function\<close>

lemma float_of_rat_zero: "float_of_rat neg 0 = Num neg 0"
  by (simp add: float_of_rat_def round_double_def)

lemma int_to_float_zero: "int_to_float 0 = Inr (Num False 0)"
  by (simp add: int_to_float_def float_of_rat_zero)

lemma py_float_error: "py_float s = Inl e \<Longrightarrow> e = ValueError"
  by (auto simp: py_float_def parse_float_body_def Let_def
      split: option.splits list.splits if_splits)

lemma parse_rent_string:
  "\<exists>r. parse_rent (Some (PStr s)) = Inr r \<and> (r = PyInt 0 \<or> (\<exists>f. r = PyFloat f))"
proof (cases "s \<noteq> [] \<and> s \<noteq> u ''-''")
  case False
  then show ?thesis by (auto simp: parse_rent_def py_truthy_def)
next
  case True
  obtain first others where sp: "py_split 0x301C s = first # others"
    using py_split_not_Nil [of "0x301C" s] by (cases "py_split 0x301C s") auto
  let ?rs = "py_strip (py_remove (u '','') (py_remove [0x4E07, 0x5186] first))"
  show ?thesis
  proof (cases "py_float ?rs")
    case (Inl e)
    then have "e = ValueError" by (rule py_float_error)
    with Inl True sp show ?thesis
      by (simp add: parse_rent_def py_truthy_def Let_def)
  next
    case (Inr f)
    with True sp show ?thesis
      by (simp add: parse_rent_def py_truthy_def Let_def)
  qed
qed

lemma parse_rent_absent:
  "parse_rent None = Inr (PyInt 0)" "parse_rent (Some PNone) = Inr (PyInt 0)"
  "parse_rent (Some (PStr [])) = Inr (PyInt 0)" "parse_rent (Some (PStr (u ''-''))) = Inr (PyInt 0)"
  by (simp_all add: parse_rent_def py_truthy_def)

lemma parse_rent_as_float:
  "parse_rent m = Inr r \<Longrightarrow> \<exists>f. as_float r = Inr f"
proof (cases m)
  case None
  assume "parse_rent m = Inr r"
  with None show ?thesis by (auto simp: parse_rent_absent as_float_def int_to_float_zero)
next
  case (Some v)
  assume r: "parse_rent m = Inr r"
  show ?thesis
  proof (cases v)
    case PNone
    with Some r show ?thesis by (auto simp: parse_rent_absent as_float_def int_to_float_zero)
  next
    case (PStr s)
    with Some r parse_rent_string [of s] show ?thesis
      by (auto simp: as_float_def int_to_float_zero)
  next
    case (PFloat f)
    with Some r show ?thesis
      by (auto simp: parse_rent_def as_float_def int_to_float_zero split: if_splits)
  qed
qed

lemma derive_fee_unset:
  "as_float rent = Inr f \<Longrightarrow> \<not> py_truthy (d key) \<Longrightarrow>
   derive_fee rent key c d = Inr (d(key \<mapsto> PFloat (py_round0 (fmul f c))))"
  by (simp add: derive_fee_def num_times_def)

lemma derive_fee_set: "py_truthy (d key) \<Longrightarrow> derive_fee rent key c d = Inr d"
  by (simp add: derive_fee_def)

lemma derive_fees_unset:
  assumes "as_float rent = Inr f"
    and "\<not> py_truthy (d ''months_guarantor'')" "\<not> py_truthy (d ''numeric_guarantor'')"
    and "\<not> py_truthy (d ''months_agency'')"
  shows "derive_fees rent d =
    Inr (d(''months_guarantor'' \<mapsto> PFloat (py_round0 (fmul f lit_0_5)),
           ''numeric_guarantor'' \<mapsto> PFloat (py_round0 (fmul f lit_1_0)),
           ''months_agency'' \<mapsto> PFloat (py_round0 (fmul f lit_1_1))))"
  using assms by (simp add: derive_fees_def derive_fee_unset)

lemma initial_record_apply:
  "initial_record K url now x =
     (if x = ''create_date'' then Some (PStr now)
      else if x = ''link'' then Some (PStr url)
      else if x \<in> set K then Some PNone else None)"
  by (simp add: initial_record_def fold_upd_const)

lemma initial_record_dom: "dom (initial_record K url now) = set K \<union> {''link'', ''create_date''}"
  by (auto simp: initial_record_def fold_upd_const_dom)

lemma run_labels_entry:
  assumes "run_labels soup (pre @ entry # post) d0 = Inr d1"
  obtains dpre dm where "run_labels soup pre d0 = Inr dpre"
    and "process_label soup dpre entry = Inr dm" and "run_labels soup post dm = Inr d1"
  using assms by (auto simp: run_labels_append split: sum.splits)

lemma fee_keys_not_labels: "set fee_keys \<inter> set (label_keys UI_MAPPING) = {}"
  by (simp add: fee_keys_def label_keys_def UI_MAPPING_def written_keys_def
      JP_TO_EN_FACING_def FEATURES_MAPPING_def DEFAULT_FEATURES_def)

lemma UI_MAPPING_rent:
  "UI_MAPPING = take 10 UI_MAPPING @ (rent_label, ''monthly_rent'') # drop 11 UI_MAPPING"
  by (simp add: UI_MAPPING_def rent_label_def)

lemma rent_key_before: "''monthly_rent'' \<notin> set (label_keys (take 10 UI_MAPPING))"
  by (simp add: label_keys_def UI_MAPPING_def written_keys_def JP_TO_EN_FACING_def)

lemma rent_key_after: "''monthly_rent'' \<notin> set (label_keys (drop 11 UI_MAPPING))"
  by (simp add: label_keys_def UI_MAPPING_def written_keys_def FEATURES_MAPPING_def
      DEFAULT_FEATURES_def)

lemma process_rent_label:
  "process_label soup d (rent_label, ''monthly_rent'') =
     (case get_value_by_label soup rent_label of
        None \<Rightarrow> Inr d
      | Some v \<Rightarrow> if v = [] then Inr d else set_monthly_rent d v)"
  by (simp add: process_label_def handle_field_def split: option.splits)

lemma set_monthly_rent_value:
  "set_monthly_rent d v = Inr d' \<Longrightarrow> \<exists>s. d' ''monthly_rent'' = Some (PStr s)"
  by (auto simp: set_monthly_rent_def split: sum.splits)

text \<open>What the loop leaves under \<^verbatim>\<open>monthly_rent\<close>.\<close>

lemma loop_rent_cases:
  assumes "run_labels soup UI_MAPPING (initial_record K url now) = Inr d1"
  shows "d1 ''monthly_rent'' = None \<or> d1 ''monthly_rent'' = Some PNone \<or>
         (\<exists>s. d1 ''monthly_rent'' = Some (PStr s))"
proof -
  from assms have "run_labels soup (take 10 UI_MAPPING @ (rent_label, ''monthly_rent'') # drop 11 UI_MAPPING)
      (initial_record K url now) = Inr d1"
    by (simp only: UI_MAPPING_rent [symmetric])
  then obtain dpre dm where pre: "run_labels soup (take 10 UI_MAPPING) (initial_record K url now) = Inr dpre"
    and mid: "process_label soup dpre (rent_label, ''monthly_rent'') = Inr dm"
    and post: "run_labels soup (drop 11 UI_MAPPING) dm = Inr d1"
    by (rule run_labels_entry)
  have a: "dpre ''monthly_rent'' = initial_record K url now ''monthly_rent''"
    using pre rent_key_before by (rule run_labels_other)
  have b: "d1 ''monthly_rent'' = dm ''monthly_rent''"
    using post rent_key_after by (rule run_labels_other)
  from mid have "dm ''monthly_rent'' = dpre ''monthly_rent'' \<or> (\<exists>s. dm ''monthly_rent'' = Some (PStr s))"
    by (auto simp: process_rent_label split: option.splits if_splits dest: set_monthly_rent_value)
  moreover have "initial_record K url now ''monthly_rent'' = None \<or>
      initial_record K url now ''monthly_rent'' = Some PNone"
    by (simp add: initial_record_apply)
  ultimately show ?thesis
    using a b by metis
qed

lemma loop_fee_keys_unset:
  assumes "run_labels soup UI_MAPPING (initial_record K url now) = Inr d1" and "x \<in> set fee_keys"
  shows "\<not> py_truthy (d1 x)"
proof -
  from assms(2) fee_keys_not_labels have "x \<notin> set (label_keys UI_MAPPING)"
    by blast
  with assms(1) have "d1 x = initial_record K url now x"
    by (rule run_labels_other)
  moreover from assms(2) have "x \<noteq> ''create_date''" "x \<noteq> ''link''"
    by (auto simp: fee_keys_def)
  ultimately show ?thesis
    by (simp add: initial_record_apply py_truthy_def)
qed

text \<open>The stages of \<^verbatim>\<open>parse_property\<close>: none of them raises.\<close>

lemma parse_property_stages:
  obtains d1 rent f where
    "run_labels soup UI_MAPPING (initial_record K url now) = Inr d1"
    and "parse_rent (d1 ''monthly_rent'') = Inr rent" and "as_float rent = Inr f"
    and "parse_property K url now soup =
      Inr (parse_images soup
        (d1(''months_guarantor'' \<mapsto> PFloat (py_round0 (fmul f lit_0_5)),
            ''numeric_guarantor'' \<mapsto> PFloat (py_round0 (fmul f lit_1_0)),
            ''months_agency'' \<mapsto> PFloat (py_round0 (fmul f lit_1_1)))) 16)"
proof -
  obtain d1 where d1: "run_labels soup UI_MAPPING (initial_record K url now) = Inr d1"
    using run_labels_total by blast
  have "\<exists>rent. parse_rent (d1 ''monthly_rent'') = Inr rent"
    using loop_rent_cases [OF d1] parse_rent_string parse_rent_absent(1,2) by metis
  then obtain rent where rent: "parse_rent (d1 ''monthly_rent'') = Inr rent" ..
  then obtain f where f: "as_float rent = Inr f"
    using parse_rent_as_float by blast
  have "\<not> py_truthy (d1 ''months_guarantor'')" "\<not> py_truthy (d1 ''numeric_guarantor'')"
    "\<not> py_truthy (d1 ''months_agency'')"
    by (rule loop_fee_keys_unset [OF d1], simp add: fee_keys_def)+
  with f have "derive_fees rent d1 =
    Inr (d1(''months_guarantor'' \<mapsto> PFloat (py_round0 (fmul f lit_0_5)),
            ''numeric_guarantor'' \<mapsto> PFloat (py_round0 (fmul f lit_1_0)),
            ''months_agency'' \<mapsto> PFloat (py_round0 (fmul f lit_1_1))))"
    by (rule derive_fees_unset)
  with d1 rent have "parse_property K url now soup =
      Inr (parse_images soup
        (d1(''months_guarantor'' \<mapsto> PFloat (py_round0 (fmul f lit_0_5)),
            ''numeric_guarantor'' \<mapsto> PFloat (py_round0 (fmul f lit_1_0)),
            ''months_agency'' \<mapsto> PFloat (py_round0 (fmul f lit_1_1)))) 16)"
    by (simp add: parse_property_def)
  with d1 rent f show ?thesis
    by (rule that)
qed

text \<open>
  A key that is neither a fee key nor an image key holds, in the result, what the loop
  over the labels left under it.
\<close>

lemma result_get_loop:
  assumes "run_labels soup UI_MAPPING (initial_record K url now) = Inr d1"
    and "x \<notin> set fee_keys" and "take 6 x \<noteq> ''image_''"
  shows "result_get (parse_property K url now soup) x = Inr (d1 x)"
proof -
  obtain d1' rent f where d1': "run_labels soup UI_MAPPING (initial_record K url now) = Inr d1'"
    and res: "parse_property K url now soup =
      Inr (parse_images soup
        (d1'(''months_guarantor'' \<mapsto> PFloat (py_round0 (fmul f lit_0_5)),
            ''numeric_guarantor'' \<mapsto> PFloat (py_round0 (fmul f lit_1_0)),
            ''months_agency'' \<mapsto> PFloat (py_round0 (fmul f lit_1_1)))) 16)"
    by (rule parse_property_stages)
  from assms(1) d1' have same: "d1' = d1" by simp
  from assms(3) have "\<And>i. x \<noteq> image_category_key i \<and> x \<noteq> image_url_key i"
    by (rule not_image_key)
  then have "parse_images soup
        (d1(''months_guarantor'' \<mapsto> PFloat (py_round0 (fmul f lit_0_5)),
            ''numeric_guarantor'' \<mapsto> PFloat (py_round0 (fmul f lit_1_0)),
            ''months_agency'' \<mapsto> PFloat (py_round0 (fmul f lit_1_1)))) 16 x
      = (d1(''months_guarantor'' \<mapsto> PFloat (py_round0 (fmul f lit_0_5)),
            ''numeric_guarantor'' \<mapsto> PFloat (py_round0 (fmul f lit_1_0)),
            ''months_agency'' \<mapsto> PFloat (py_round0 (fmul f lit_1_1)))) x"
    by (rule parse_images_other)
  also have "\<dots> = d1 x"
    using assms(2) by (auto simp: fee_keys_def)
  finally show ?thesis
    by (simp add: res same result_get_def)
qed

section \<open>The image slots\<close>

text \<open>
  Claim C8.  With \<open>vs\<close> the images of the page, in document order, that have a
  non-empty source (an image with none of the three source attributes is not among them)
  and \<open>k\<close> the smaller of their number and \<^verbatim>\<open>max_images\<close>, the collector stores the
  category and the address of the \<open>i\<close>-th of them in slot \<open>i\<close> for every \<open>i\<close> from 1
  to \<open>k\<close>, and \<^verbatim>\<open>None\<close> in both keys of every slot from \<open>k + 1\<close> to
  \<^verbatim>\<open>max_images\<close>; with three such images and the default of 16, slots 1 to 3 are
  filled and slots 4 to 16 are \<^verbatim>\<open>None\<close>.
\<close>

theorem image_slots:
  "(1 \<le> i \<and> i \<le> min max_images (length (filter valid_image (select_tag ''img'' soup))) \<longrightarrow>
      parse_images soup data max_images (image_category_key i) =
        Some (PStr (image_category (filter valid_image (select_tag ''img'' soup) ! (i - 1)))) \<and>
      parse_images soup data max_images (image_url_key i) =
        Some (PStr (image_url (filter valid_image (select_tag ''img'' soup) ! (i - 1))))) \<and>
   (min max_images (length (filter valid_image (select_tag ''img'' soup))) < j \<and> j \<le> max_images \<longrightarrow>
      parse_images soup data max_images (image_category_key j) = Some PNone \<and>
      parse_images soup data max_images (image_url_key j) = Some PNone) \<and>
   (map_of img ''src'' = None \<and> map_of img ''data-src'' = None \<and> map_of img ''data-lazy'' = None \<longrightarrow>
      \<not> valid_image img) \<and>
   (length (filter valid_image (select_tag ''img'' soup)) = 3 \<and> 4 \<le> j \<and> j \<le> 16 \<longrightarrow>
      parse_images soup data 16 (image_category_key j) = Some PNone \<and>
      parse_images soup data 16 (image_url_key j) = Some PNone)"
proof (intro conjI impI)
  assume "1 \<le> i \<and> i \<le> min max_images (length (filter valid_image (select_tag ''img'' soup)))"
  then have i: "1 \<le> i" "i \<le> min max_images (length (filter valid_image (select_tag ''img'' soup)))"
    by simp_all
  from i show "parse_images soup data max_images (image_category_key i) =
        Some (PStr (image_category (filter valid_image (select_tag ''img'' soup) ! (i - 1))))"
    by (rule parse_images_filled)
  from i show "parse_images soup data max_images (image_url_key i) =
        Some (PStr (image_url (filter valid_image (select_tag ''img'' soup) ! (i - 1))))"
    by (rule parse_images_filled)
next
  assume "min max_images (length (filter valid_image (select_tag ''img'' soup))) < j \<and> j \<le> max_images"
  then have j: "min max_images (length (filter valid_image (select_tag ''img'' soup))) < j" "j \<le> max_images"
    by simp_all
  from j show "parse_images soup data max_images (image_category_key j) = Some PNone"
    by (rule parse_images_padded)
  from j show "parse_images soup data max_images (image_url_key j) = Some PNone"
    by (rule parse_images_padded)
next
  assume "map_of img ''src'' = None \<and> map_of img ''data-src'' = None \<and> map_of img ''data-lazy'' = None"
  then show "\<not> valid_image img"
    by (simp add: valid_image_def image_source_def py_or_def attr_truthy_def)
next
  assume "length (filter valid_image (select_tag ''img'' soup)) = 3 \<and> 4 \<le> j \<and> j \<le> 16"
  then have j: "min 16 (length (filter valid_image (select_tag ''img'' soup))) < j" "j \<le> 16"
    by simp_all
  from j show "parse_images soup data 16 (image_category_key j) = Some PNone"
    by (rule parse_images_padded)
  from j show "parse_images soup data 16 (image_url_key j) = Some PNone"
    by (rule parse_images_padded)
qed

lemma sample_listing_images:
  "filter valid_image (select_tag ''img'' sample_listing) =
     [[(''src'', u ''/a.jpg''), (''alt'', u ''front'')],
      [(''data-src'', u ''https://cdn.example/b.jpg'')],
      [(''src'', []), (''data-lazy'', u ''/c.jpg''), (''alt'', [])]]"
  by (simp add: sample_listing_def valid_image_def image_source_def py_or_def attr_truthy_def u_def)

theorem image_slots_witness:
  "parse_images sample_listing Map.empty 16 (image_category_key 3) = Some (PStr (u ''None'')) \<and>
   parse_images sample_listing Map.empty 16 (image_url_key 3) =
     Some (PStr (u ''https://rent.tokyu-housing-lease.co.jp/c.jpg'')) \<and>
   parse_images sample_listing Map.empty 16 (image_category_key 9) = Some PNone \<and>
   parse_images sample_listing Map.empty 16 (image_url_key 9) = Some PNone \<and>
   \<not> valid_image [(''alt'', u ''no source'')]"
  using image_slots [where i = 3 and j = 9 and max_images = 16 and soup = sample_listing
      and data = Map.empty and img = "[(''alt'', u ''no source'')]"]
  by (simp add: sample_listing_images image_category_def image_url_def image_source_def
      py_or_def attr_truthy_def resolve_url_def site_origin_def u_def)

section \<open>The derived fees\<close>

lemma floor_rat_numeral: "\<lfloor>numeral a / numeral b :: rat\<rfloor> = numeral a div numeral b"
  by (metis floor_divide_of_int_eq of_int_numeral)

lemma floor_rat_one: "\<lfloor>1 / numeral b :: rat\<rfloor> = 1 div numeral b"
  by (metis floor_divide_of_int_eq of_int_numeral of_int_1)

lemma ceiling_rat_numeral: "\<lceil>numeral a / numeral b :: rat\<rceil> = - (- numeral a div numeral b)"
  by (metis ceiling_divide_eq_div of_int_numeral)

lemma ceiling_rat_one: "\<lceil>1 / numeral b :: rat\<rceil> = - (- 1 div numeral b)"
  by (metis ceiling_divide_eq_div of_int_numeral of_int_1)

text \<open>The equations that evaluate a float operation on numerals.\<close>

lemmas float_eval = float_of_rat_def round_double_def floor_log2_def bit_length.simps pow2_def
  round_half_even_def Let_def floor_rat_numeral floor_rat_one ceiling_rat_numeral ceiling_rat_one

lemmas py_float_eval = py_float_def parse_float_body_def parse_decimal_def parse_exponent_def
  digits_value_def ascii_digit_def ascii_space_def ascii_lower_def pow10_def u_def float_eval

lemma lit_0_5_value: "lit_0_5 = Num False (1 / 2)"
  by (simp add: lit_0_5_def float_eval)

lemma lit_1_0_value: "lit_1_0 = Num False 1"
  by (simp add: lit_1_0_def float_eval)

lemma lit_1_1_value: "lit_1_1 = Num False (2476979795053773 / 2251799813685248)"
  by (simp add: lit_1_1_def float_eval)

lemma round_half_even_zero: "round_half_even 0 = 0"
  by (simp add: round_half_even_def)

lemma zero_fee:
  "py_round0 (fmul (Num False 0) lit_0_5) = Num False 0"
  "py_round0 (fmul (Num False 0) lit_1_0) = Num False 0"
  "py_round0 (fmul (Num False 0) lit_1_1) = Num False 0"
  by (simp_all add: lit_0_5_value lit_1_0_value lit_1_1_value float_of_rat_zero
      round_half_even_zero)

lemma fee_of_100000:
  "py_round0 (fmul (Num False 100000) lit_0_5) = Num False 50000"
  "py_round0 (fmul (Num False 100000) lit_1_0) = Num False 100000"
  "py_round0 (fmul (Num False 100000) lit_1_1) = Num False 110000"
  by (simp_all add: lit_0_5_value lit_1_0_value lit_1_1_value float_eval)

lemma derive_fees_get:
  assumes "as_float rent = Inr f"
  shows "result_get (derive_fees rent data) ''months_guarantor'' =
           Inr (if py_truthy (data ''months_guarantor'') then data ''months_guarantor''
                else Some (PFloat (py_round0 (fmul f lit_0_5))))"
    and "result_get (derive_fees rent data) ''numeric_guarantor'' =
           Inr (if py_truthy (data ''numeric_guarantor'') then data ''numeric_guarantor''
                else Some (PFloat (py_round0 (fmul f lit_1_0))))"
    and "result_get (derive_fees rent data) ''months_agency'' =
           Inr (if py_truthy (data ''months_agency'') then data ''months_agency''
                else Some (PFloat (py_round0 (fmul f lit_1_1))))"
  using assms
  by (simp_all add: derive_fees_def derive_fee_def num_times_def result_get_def)

text \<open>
  Claim C7.  With \<open>f\<close> the rent as a float, the derived-value calculator stores
  \<^verbatim>\<open>round(rent * 0.5, 0)\<close> under \<^verbatim>\<open>months_guarantor\<close>,
  \<^verbatim>\<open>round(rent * 1.0, 0)\<close> under \<^verbatim>\<open>numeric_guarantor\<close> and
  \<^verbatim>\<open>round(rent * 1.1, 0)\<close> under \<^verbatim>\<open>months_agency\<close>, each when the key is not set
  already, and keeps the value of a key that is set; for a rent of 100000 the three values
  are 50000, 100000 and 110000.
\<close>

theorem derived_fees:
  "(as_float rent = Inr f \<longrightarrow>
      result_get (derive_fees rent data) ''months_guarantor'' =
        Inr (if py_truthy (data ''months_guarantor'') then data ''months_guarantor''
             else Some (PFloat (py_round0 (fmul f lit_0_5)))) \<and>
      result_get (derive_fees rent data) ''numeric_guarantor'' =
        Inr (if py_truthy (data ''numeric_guarantor'') then data ''numeric_guarantor''
             else Some (PFloat (py_round0 (fmul f lit_1_0)))) \<and>
      result_get (derive_fees rent data) ''months_agency'' =
        Inr (if py_truthy (data ''months_agency'') then data ''months_agency''
             else Some (PFloat (py_round0 (fmul f lit_1_1))))) \<and>
   py_round0 (fmul (Num False 100000) lit_0_5) = Num False 50000 \<and>
   py_round0 (fmul (Num False 100000) lit_1_0) = Num False 100000 \<and>
   py_round0 (fmul (Num False 100000) lit_1_1) = Num False 110000"
  using derive_fees_get [of rent f data] fee_of_100000 by simp

theorem derived_fees_witness:
  "as_float (PyFloat (Num False 100000)) = Inr (Num False 100000) \<and>
   result_get (derive_fees (PyFloat (Num False 100000)) Map.empty) ''months_guarantor'' =
     Inr (Some (PFloat (Num False 50000))) \<and>
   result_get (derive_fees (PyFloat (Num False 100000)) Map.empty) ''numeric_guarantor'' =
     Inr (Some (PFloat (Num False 100000))) \<and>
   result_get (derive_fees (PyFloat (Num False 100000)) Map.empty) ''months_agency'' =
     Inr (Some (PFloat (Num False 110000)))"
  using derived_fees [of "PyFloat (Num False 100000)" "Num False 100000" Map.empty]
  by (simp add: as_float_def py_truthy_def)

section \<open>The rent derivation\<close>

lemma loop_entry:
  assumes "UI_MAPPING = pre @ entry # post"
    and "run_labels soup UI_MAPPING d0 = Inr d1"
  obtains dpre dm where "run_labels soup pre d0 = Inr dpre"
    and "process_label soup dpre entry = Inr dm" and "run_labels soup post dm = Inr d1"
proof -
  from assms have "run_labels soup (pre @ entry # post) d0 = Inr d1"
    by simp
  then show ?thesis
    using that by (rule run_labels_entry)
qed

lemma loop_rent_missing:
  assumes "run_labels soup UI_MAPPING (initial_record K url now) = Inr d1"
    and "get_value_by_label soup rent_label = None \<or> get_value_by_label soup rent_label = Some []"
  shows "d1 ''monthly_rent'' = initial_record K url now ''monthly_rent''"
proof -
  from UI_MAPPING_rent assms(1) obtain dpre dm
    where pre: "run_labels soup (take 10 UI_MAPPING) (initial_record K url now) = Inr dpre"
    and mid: "process_label soup dpre (rent_label, ''monthly_rent'') = Inr dm"
    and post: "run_labels soup (drop 11 UI_MAPPING) dm = Inr d1"
    by (rule loop_entry)
  from mid assms(2) have "dm = dpre"
    by (auto simp: process_rent_label)
  moreover have "dpre ''monthly_rent'' = initial_record K url now ''monthly_rent''"
    using pre rent_key_before by (rule run_labels_other)
  moreover have "d1 ''monthly_rent'' = dm ''monthly_rent''"
    using post rent_key_after by (rule run_labels_other)
  ultimately show ?thesis by simp
qed

lemma loop_rent_found:
  assumes "run_labels soup UI_MAPPING (initial_record K url now) = Inr d1"
    and "get_value_by_label soup rent_label = Some v" and "v \<noteq> []"
    and "rent_text v = Inr kept"
  shows "d1 ''monthly_rent'' = Some (PStr kept)"
proof -
  from UI_MAPPING_rent assms(1) obtain dpre dm
    where mid: "process_label soup dpre (rent_label, ''monthly_rent'') = Inr dm"
    and post: "run_labels soup (drop 11 UI_MAPPING) dm = Inr d1"
    by (rule loop_entry)
  from mid assms(2-4) have "dm ''monthly_rent'' = Some (PStr kept)"
    by (auto simp: process_rent_label set_monthly_rent_def)
  moreover have "d1 ''monthly_rent'' = dm ''monthly_rent''"
    using post rent_key_after by (rule run_labels_other)
  ultimately show ?thesis by simp
qed

lemma as_float_zero: "as_float (PyInt 0) = Inr (Num False 0)"
  by (simp add: as_float_def int_to_float_zero)

lemma parse_rent_unparsable:
  assumes "py_split 0x301C s = first # others"
    and "py_float (py_strip (py_remove (u '','') (py_remove [0x4E07, 0x5186] first))) = Inl e"
  shows "parse_rent (Some (PStr s)) = Inr (PyInt 0)"
proof -
  from assms(2) have "e = ValueError" by (rule py_float_error)
  with assms show ?thesis
    by (simp add: parse_rent_def Let_def)
qed

text \<open>
  Claim C9.  The numeric rent derivation never raises: \<^verbatim>\<open>parse_property\<close> returns a
  record for every page, and the derivation returns a number for a \<^verbatim>\<open>monthly_rent\<close>
  that is absent, \<^verbatim>\<open>None\<close> or any string.  The number is the integer 0 when the value
  is absent, \<^verbatim>\<open>None\<close>, empty or the dash, and when \<^verbatim>\<open>float\<close> rejects what is left
  of the text before the wave dash once the currency suffix, the commas and the
  surrounding blanks are removed; the fees derived from 0 are the float 0.
\<close>

theorem rent_never_raises:
  "(\<exists>d. parse_property OUTPUT_KEYS url now soup = Inr d) \<and>
   (m = None \<or> m = Some PNone \<or> m = Some (PStr s) \<longrightarrow>
      (\<exists>rent f. parse_rent m = Inr rent \<and> as_float rent = Inr f)) \<and>
   (m = None \<or> m = Some PNone \<or> m = Some (PStr []) \<or> m = Some (PStr (u ''-'')) \<or>
    (m = Some (PStr s) \<and> py_split 0x301C s = first # others \<and>
     py_float (py_strip (py_remove (u '','') (py_remove [0x4E07, 0x5186] first))) = Inl e) \<longrightarrow>
      parse_rent m = Inr (PyInt 0)) \<and>
   result_get (derive_fees (PyInt 0) data) ''months_guarantor'' =
     Inr (if py_truthy (data ''months_guarantor'') then data ''months_guarantor''
          else Some (PFloat (Num False 0))) \<and>
   result_get (derive_fees (PyInt 0) data) ''numeric_guarantor'' =
     Inr (if py_truthy (data ''numeric_guarantor'') then data ''numeric_guarantor''
          else Some (PFloat (Num False 0))) \<and>
   result_get (derive_fees (PyInt 0) data) ''months_agency'' =
     Inr (if py_truthy (data ''months_agency'') then data ''months_agency''
          else Some (PFloat (Num False 0)))"
proof (intro conjI impI)
  show "\<exists>d. parse_property OUTPUT_KEYS url now soup = Inr d"
    using parse_property_stages [of soup OUTPUT_KEYS url now] by metis
next
  assume "m = None \<or> m = Some PNone \<or> m = Some (PStr s)"
  then obtain rent where rent: "parse_rent m = Inr rent"
    using parse_rent_string [of s] parse_rent_absent(1,2) by metis
  then obtain f where "as_float rent = Inr f"
    using parse_rent_as_float by blast
  with rent show "\<exists>rent f. parse_rent m = Inr rent \<and> as_float rent = Inr f"
    by blast
next
  assume "m = None \<or> m = Some PNone \<or> m = Some (PStr []) \<or> m = Some (PStr (u ''-'')) \<or>
    (m = Some (PStr s) \<and> py_split 0x301C s = first # others \<and>
     py_float (py_strip (py_remove (u '','') (py_remove [0x4E07, 0x5186] first))) = Inl e)"
  then show "parse_rent m = Inr (PyInt 0)"
    using parse_rent_absent parse_rent_unparsable [of s first others e] by metis
next
  show "result_get (derive_fees (PyInt 0) data) ''months_guarantor'' =
     Inr (if py_truthy (data ''months_guarantor'') then data ''months_guarantor''
          else Some (PFloat (Num False 0)))"
    using derive_fees_get(1) [OF as_float_zero, of data] by (simp add: zero_fee)
next
  show "result_get (derive_fees (PyInt 0) data) ''numeric_guarantor'' =
     Inr (if py_truthy (data ''numeric_guarantor'') then data ''numeric_guarantor''
          else Some (PFloat (Num False 0)))"
    using derive_fees_get(2) [OF as_float_zero, of data] by (simp add: zero_fee)
next
  show "result_get (derive_fees (PyInt 0) data) ''months_agency'' =
     Inr (if py_truthy (data ''months_agency'') then data ''months_agency''
          else Some (PFloat (Num False 0)))"
    using derive_fees_get(3) [OF as_float_zero, of data] by (simp add: zero_fee)
qed

lemma unparsable_rent_text:
  "py_split 0x301C [0x8981, 0x76F8, 0x8AC7] = [[0x8981, 0x76F8, 0x8AC7]]"
  "py_float (py_strip (py_remove (u '','') (py_remove [0x4E07, 0x5186] [0x8981, 0x76F8, 0x8AC7]))) =
     Inl ValueError"
  by (simp_all add: py_strip_def py_isspace_def py_float_eval decimal_value_def
      unicode_decimal_zeros_def)

theorem rent_never_raises_witness:
  "parse_rent (Some (PStr [0x8981, 0x76F8, 0x8AC7])) = Inr (PyInt 0) \<and>
   parse_rent None = Inr (PyInt 0) \<and>
   result_get (derive_fees (PyInt 0) Map.empty) ''months_guarantor'' =
     Inr (Some (PFloat (Num False 0))) \<and>
   result_get (derive_fees (PyInt 0) Map.empty) ''numeric_guarantor'' =
     Inr (Some (PFloat (Num False 0))) \<and>
   result_get (derive_fees (PyInt 0) Map.empty) ''months_agency'' =
     Inr (Some (PFloat (Num False 0)))"
proof -
  note at_text = rent_never_raises [where m = "Some (PStr [0x8981, 0x76F8, 0x8AC7])"
      and s = "[0x8981, 0x76F8, 0x8AC7]" and first = "[0x8981, 0x76F8, 0x8AC7]" and others = "[]"
      and e = ValueError and data = Map.empty]
  from at_text unparsable_rent_text
  have "parse_rent (Some (PStr [0x8981, 0x76F8, 0x8AC7])) = Inr (PyInt 0)"
    by blast
  moreover from rent_never_raises [where m = None] have "parse_rent None = Inr (PyInt 0)"
    by blast
  moreover from at_text have
    "result_get (derive_fees (PyInt 0) Map.empty) ''months_guarantor'' =
       Inr (Some (PFloat (Num False 0)))"
    "result_get (derive_fees (PyInt 0) Map.empty) ''numeric_guarantor'' =
       Inr (Some (PFloat (Num False 0)))"
    "result_get (derive_fees (PyInt 0) Map.empty) ''months_agency'' =
       Inr (Some (PFloat (Num False 0)))"
    by (simp_all add: py_truthy_def)
  ultimately show ?thesis
    by blast
qed

section \<open>The fee fields of the record\<close>

text \<open>What the result holds under the three fee keys, in terms of the rent.\<close>

lemma result_fees:
  obtains d1 rent f where
    "run_labels soup UI_MAPPING (initial_record K url now) = Inr d1"
    and "parse_rent (d1 ''monthly_rent'') = Inr rent" and "as_float rent = Inr f"
    and "result_get (parse_property K url now soup) ''months_guarantor'' =
           Inr (Some (PFloat (py_round0 (fmul f lit_0_5))))"
    and "result_get (parse_property K url now soup) ''numeric_guarantor'' =
           Inr (Some (PFloat (py_round0 (fmul f lit_1_0))))"
    and "result_get (parse_property K url now soup) ''months_agency'' =
           Inr (Some (PFloat (py_round0 (fmul f lit_1_1))))"
proof -
  obtain d1 rent f where d1: "run_labels soup UI_MAPPING (initial_record K url now) = Inr d1"
    and rent: "parse_rent (d1 ''monthly_rent'') = Inr rent" and f: "as_float rent = Inr f"
    and res: "parse_property K url now soup =
      Inr (parse_images soup
        (d1(''months_guarantor'' \<mapsto> PFloat (py_round0 (fmul f lit_0_5)),
            ''numeric_guarantor'' \<mapsto> PFloat (py_round0 (fmul f lit_1_0)),
            ''months_agency'' \<mapsto> PFloat (py_round0 (fmul f lit_1_1)))) 16)"
    by (rule parse_property_stages)
  let ?d2 = "d1(''months_guarantor'' \<mapsto> PFloat (py_round0 (fmul f lit_0_5)),
            ''numeric_guarantor'' \<mapsto> PFloat (py_round0 (fmul f lit_1_0)),
            ''months_agency'' \<mapsto> PFloat (py_round0 (fmul f lit_1_1)))"
  have keep: "parse_images soup ?d2 16 x = ?d2 x" if "take 6 x \<noteq> ''image_''" for x
    by (rule parse_images_other) (rule not_image_key [OF that])
  have "result_get (parse_property K url now soup) ''months_guarantor'' =
           Inr (Some (PFloat (py_round0 (fmul f lit_0_5))))"
    and "result_get (parse_property K url now soup) ''numeric_guarantor'' =
           Inr (Some (PFloat (py_round0 (fmul f lit_1_0))))"
    and "result_get (parse_property K url now soup) ''months_agency'' =
           Inr (Some (PFloat (py_round0 (fmul f lit_1_1))))"
    by (simp_all add: res result_get_def keep)
  with d1 rent f show ?thesis
    by (rule that)
qed

text \<open>
  Claim C10.  In every record that \<^verbatim>\<open>parse_property\<close> returns, the keys
  \<^verbatim>\<open>months_guarantor\<close>, \<^verbatim>\<open>numeric_guarantor\<close> and \<^verbatim>\<open>months_agency\<close> hold floats,
  never \<^verbatim>\<open>None\<close>; the three floats are 0 when the page has no rent field, or an empty
  one, and when the rent text that the normalizer kept makes the derivation yield 0.
\<close>

theorem fees_never_null:
  "(\<exists>f1 f2 f3.
      result_get (parse_property OUTPUT_KEYS url now soup) ''months_guarantor'' =
        Inr (Some (PFloat f1)) \<and>
      result_get (parse_property OUTPUT_KEYS url now soup) ''numeric_guarantor'' =
        Inr (Some (PFloat f2)) \<and>
      result_get (parse_property OUTPUT_KEYS url now soup) ''months_agency'' =
        Inr (Some (PFloat f3))) \<and>
   (get_value_by_label soup rent_label = None \<or> get_value_by_label soup rent_label = Some [] \<or>
    (get_value_by_label soup rent_label = Some v \<and> rent_text v = Inr kept \<and>
     parse_rent (Some (PStr kept)) = Inr (PyInt 0)) \<longrightarrow>
      result_get (parse_property OUTPUT_KEYS url now soup) ''months_guarantor'' =
        Inr (Some (PFloat (Num False 0))) \<and>
      result_get (parse_property OUTPUT_KEYS url now soup) ''numeric_guarantor'' =
        Inr (Some (PFloat (Num False 0))) \<and>
      result_get (parse_property OUTPUT_KEYS url now soup) ''months_agency'' =
        Inr (Some (PFloat (Num False 0))))"
proof -
  obtain d1 rent f where d1: "run_labels soup UI_MAPPING (initial_record OUTPUT_KEYS url now) = Inr d1"
    and rent: "parse_rent (d1 ''monthly_rent'') = Inr rent" and f: "as_float rent = Inr f"
    and fees: "result_get (parse_property OUTPUT_KEYS url now soup) ''months_guarantor'' =
           Inr (Some (PFloat (py_round0 (fmul f lit_0_5))))"
      "result_get (parse_property OUTPUT_KEYS url now soup) ''numeric_guarantor'' =
           Inr (Some (PFloat (py_round0 (fmul f lit_1_0))))"
      "result_get (parse_property OUTPUT_KEYS url now soup) ''months_agency'' =
           Inr (Some (PFloat (py_round0 (fmul f lit_1_1))))"
    by (rule result_fees)
  have zero: "f = Num False 0" if "parse_rent (d1 ''monthly_rent'') = Inr (PyInt 0)"
    using that rent f by (simp add: as_float_zero)
  have missing: "parse_rent (d1 ''monthly_rent'') = Inr (PyInt 0)"
    if "get_value_by_label soup rent_label = None \<or> get_value_by_label soup rent_label = Some []"
  proof -
    from d1 that have "d1 ''monthly_rent'' = initial_record OUTPUT_KEYS url now ''monthly_rent''"
      by (rule loop_rent_missing)
    then show ?thesis
      by (simp add: initial_record_apply parse_rent_absent)
  qed
  have found: "parse_rent (d1 ''monthly_rent'') = Inr (PyInt 0)"
    if "get_value_by_label soup rent_label = Some v" and "rent_text v = Inr kept"
      and "parse_rent (Some (PStr kept)) = Inr (PyInt 0)"
  proof (cases "v = []")
    case True
    with that(1) show ?thesis by (simp add: missing)
  next
    case False
    with d1 that(1,2) have "d1 ''monthly_rent'' = Some (PStr kept)"
      by (simp add: loop_rent_found)
    with that(3) show ?thesis by simp
  qed
  show ?thesis
  proof (intro conjI impI)
    from fees show "\<exists>f1 f2 f3.
      result_get (parse_property OUTPUT_KEYS url now soup) ''months_guarantor'' =
        Inr (Some (PFloat f1)) \<and>
      result_get (parse_property OUTPUT_KEYS url now soup) ''numeric_guarantor'' =
        Inr (Some (PFloat f2)) \<and>
      result_get (parse_property OUTPUT_KEYS url now soup) ''months_agency'' =
        Inr (Some (PFloat f3))"
      by blast
  next
    assume "get_value_by_label soup rent_label = None \<or> get_value_by_label soup rent_label = Some [] \<or>
      (get_value_by_label soup rent_label = Some v \<and> rent_text v = Inr kept \<and>
       parse_rent (Some (PStr kept)) = Inr (PyInt 0))"
    with missing found have "parse_rent (d1 ''monthly_rent'') = Inr (PyInt 0)"
      by blast
    then have z: "f = Num False 0" by (rule zero)
    from fees(1) z show "result_get (parse_property OUTPUT_KEYS url now soup) ''months_guarantor'' =
        Inr (Some (PFloat (Num False 0)))"
      by (simp add: zero_fee)
    from fees(2) z show "result_get (parse_property OUTPUT_KEYS url now soup) ''numeric_guarantor'' =
        Inr (Some (PFloat (Num False 0)))"
      by (simp add: zero_fee)
    from fees(3) z show "result_get (parse_property OUTPUT_KEYS url now soup) ''months_agency'' =
        Inr (Some (PFloat (Num False 0)))"
      by (simp add: zero_fee)
  qed
qed

lemmas doc_eval = get_value_by_label_def value_after_def labelled_def find_next_sibling_def
  get_text_strip_def py_strip_def py_isspace_def

lemma no_rent_in_empty_page: "get_value_by_label [] rent_label = None"
  by (simp add: doc_eval)

lemma dash_listing_rent:
  "get_value_by_label dash_listing rent_label = Some (u ''-'')"
  "rent_text (u ''-'') = Inr (u ''-'')"
  by (simp_all add: dash_listing_def rent_label_def doc_eval rent_text_def u_def)

theorem fees_never_null_witness:
  "get_value_by_label [] rent_label = None \<and>
   result_get (parse_property [] sample_url sample_now []) ''months_guarantor'' =
     Inr (Some (PFloat (Num False 0))) \<and>
   get_value_by_label dash_listing rent_label = Some (u ''-'') \<and>
   result_get (parse_property [] sample_url sample_now dash_listing) ''months_guarantor'' =
     Inr (Some (PFloat (Num False 0))) \<and>
   result_get (parse_property [] sample_url sample_now dash_listing) ''numeric_guarantor'' =
     Inr (Some (PFloat (Num False 0))) \<and>
   result_get (parse_property [] sample_url sample_now dash_listing) ''months_agency'' =
     Inr (Some (PFloat (Num False 0)))"
  using fees_never_null [of "[]" sample_url sample_now "[]"] no_rent_in_empty_page
    fees_never_null [of "[]" sample_url sample_now dash_listing "u ''-''" "u ''-''"]
    dash_listing_rent parse_rent_absent(4)
  by blast

section \<open>The keys of the record\<close>

lemma image_slot_keys_card: "card (image_slot_keys n) = 2 * n"
proof -
  have "inj_on image_category_key {1..n}" "inj_on image_url_key {1..n}"
    by (simp_all add: inj_on_def)
  then have "card (image_category_key ` {1..n}) = n" "card (image_url_key ` {1..n}) = n"
    by (simp_all add: card_image)
  moreover have "image_category_key ` {1..n} \<inter> image_url_key ` {1..n} = {}"
    by auto
  ultimately show ?thesis
    by (simp add: image_slot_keys_def card_Un_disjoint)
qed

text \<open>The keys of the returned record.\<close>

lemma result_keys_bounds:
  obtains D where "result_keys (parse_property K url now soup) =
      Inr (D \<union> set fee_keys \<union> image_slot_keys 16)"
    and "set K \<union> {''link'', ''create_date''} \<subseteq> D"
    and "D \<subseteq> set K \<union> {''link'', ''create_date''} \<union> set (label_keys UI_MAPPING)"
proof -
  obtain d1 rent f where d1: "run_labels soup UI_MAPPING (initial_record K url now) = Inr d1"
    and res: "parse_property K url now soup =
      Inr (parse_images soup
        (d1(''months_guarantor'' \<mapsto> PFloat (py_round0 (fmul f lit_0_5)),
            ''numeric_guarantor'' \<mapsto> PFloat (py_round0 (fmul f lit_1_0)),
            ''months_agency'' \<mapsto> PFloat (py_round0 (fmul f lit_1_1)))) 16)"
    by (rule parse_property_stages)
  let ?d2 = "d1(''months_guarantor'' \<mapsto> PFloat (py_round0 (fmul f lit_0_5)),
            ''numeric_guarantor'' \<mapsto> PFloat (py_round0 (fmul f lit_1_0)),
            ''months_agency'' \<mapsto> PFloat (py_round0 (fmul f lit_1_1)))"
  have "dom ?d2 = dom d1 \<union> set fee_keys"
    by (auto simp: fee_keys_def)
  then have "dom (parse_images soup ?d2 16) = dom d1 \<union> set fee_keys \<union> image_slot_keys 16"
    by (simp only: parse_images_dom image_slot_keys_def Un_assoc)
  with res have "result_keys (parse_property K url now soup) =
      Inr (dom d1 \<union> set fee_keys \<union> image_slot_keys 16)"
    by (simp add: result_keys_def)
  moreover from run_labels_dom [OF d1]
  have "set K \<union> {''link'', ''create_date''} \<subseteq> dom d1"
    and "dom d1 \<subseteq> set K \<union> {''link'', ''create_date''} \<union> set (label_keys UI_MAPPING)"
    by (simp_all only: initial_record_dom)
  ultimately show ?thesis
    by (rule that)
qed

lemma result_keys_get:
  "result_keys r = Inr S \<Longrightarrow> k \<in> S \<Longrightarrow> \<exists>v. result_get r k = Inr (Some v)"
  by (cases r) (auto simp: result_keys_def result_get_def)

text \<open>
  Claim C2.  Every key of \<^verbatim>\<open>OUTPUT_KEYS\<close> is in every returned record, with
  \<^verbatim>\<open>None\<close> or another value.  When \<^verbatim>\<open>OUTPUT_KEYS\<close> declares every key that the
  normalizer and the derived-value calculator can write, the keys of the record are those
  of \<^verbatim>\<open>OUTPUT_KEYS\<close>, the keys of the 16 image slots, \<^verbatim>\<open>link\<close> and
  \<^verbatim>\<open>create_date\<close>, whatever the page; the image slots have 32 keys.
\<close>

theorem record_key_set:
  "(k \<in> set OUTPUT_KEYS \<longrightarrow>
      (\<exists>v. result_get (parse_property OUTPUT_KEYS url now soup) k = Inr (Some v))) \<and>
   (set normalizer_keys \<subseteq> set OUTPUT_KEYS \<longrightarrow>
      result_keys (parse_property OUTPUT_KEYS url now soup) =
        Inr (set OUTPUT_KEYS \<union> image_slot_keys 16 \<union> {''link'', ''create_date''}) \<and>
      result_keys (parse_property OUTPUT_KEYS url' now' soup') =
        result_keys (parse_property OUTPUT_KEYS url now soup)) \<and>
   card (image_slot_keys 16) = 32"
proof (intro conjI impI)
  assume k: "k \<in> set OUTPUT_KEYS"
  obtain D where r: "result_keys (parse_property OUTPUT_KEYS url now soup) =
      Inr (D \<union> set fee_keys \<union> image_slot_keys 16)"
    and lo: "set OUTPUT_KEYS \<union> {''link'', ''create_date''} \<subseteq> D"
    by (rule result_keys_bounds)
  from lo k have "k \<in> D \<union> set fee_keys \<union> image_slot_keys 16"
    by blast
  with r show "\<exists>v. result_get (parse_property OUTPUT_KEYS url now soup) k = Inr (Some v)"
    by (rule result_keys_get)
next
  assume "set normalizer_keys \<subseteq> set OUTPUT_KEYS"
  then have declared: "set (label_keys UI_MAPPING) \<subseteq> set OUTPUT_KEYS" "set fee_keys \<subseteq> set OUTPUT_KEYS"
    by (simp_all add: normalizer_keys_def)
  have keys: "result_keys (parse_property OUTPUT_KEYS u1 n1 s1) =
        Inr (set OUTPUT_KEYS \<union> image_slot_keys 16 \<union> {''link'', ''create_date''})" for u1 n1 s1
  proof -
    obtain D where r: "result_keys (parse_property OUTPUT_KEYS u1 n1 s1) =
        Inr (D \<union> set fee_keys \<union> image_slot_keys 16)"
      and lo: "set OUTPUT_KEYS \<union> {''link'', ''create_date''} \<subseteq> D"
      and hi: "D \<subseteq> set OUTPUT_KEYS \<union> {''link'', ''create_date''} \<union> set (label_keys UI_MAPPING)"
      by (rule result_keys_bounds)
    from lo hi declared have "D \<union> set fee_keys \<union> image_slot_keys 16 =
        set OUTPUT_KEYS \<union> image_slot_keys 16 \<union> {''link'', ''create_date''}"
      by blast
    with r show ?thesis by simp
  qed
  from keys show "result_keys (parse_property OUTPUT_KEYS url now soup) =
        Inr (set OUTPUT_KEYS \<union> image_slot_keys 16 \<union> {''link'', ''create_date''})" .
  from keys show "result_keys (parse_property OUTPUT_KEYS url' now' soup') =
        result_keys (parse_property OUTPUT_KEYS url now soup)"
    by simp
next
  show "card (image_slot_keys 16) = 32"
    by (simp add: image_slot_keys_card)
qed

lemma prefecture_declared: "''prefecture'' \<in> set normalizer_keys"
  by (simp add: normalizer_keys_def label_keys_def UI_MAPPING_def written_keys_def)

theorem record_key_set_witness:
  "''prefecture'' \<in> set normalizer_keys \<and>
   (\<exists>v. result_get (parse_property normalizer_keys sample_url sample_now bare_listing)
           ''prefecture'' = Inr (Some v)) \<and>
   set normalizer_keys \<subseteq> set normalizer_keys \<and>
   result_keys (parse_property normalizer_keys sample_url sample_now sample_listing) =
     Inr (set normalizer_keys \<union> image_slot_keys 16 \<union> {''link'', ''create_date''}) \<and>
   result_keys (parse_property normalizer_keys [] [] bare_listing) =
     result_keys (parse_property normalizer_keys sample_url sample_now sample_listing)"
  using record_key_set [of "''prefecture''" normalizer_keys sample_url sample_now bare_listing]
    record_key_set [of _ normalizer_keys sample_url sample_now sample_listing "[]" "[]" bare_listing]
    prefecture_declared
  by blast

section \<open>The facing flags\<close>

lemma UI_MAPPING_facing:
  "UI_MAPPING = take 9 UI_MAPPING @ (facing_label, ''facing'') # drop 10 UI_MAPPING"
  by (simp add: UI_MAPPING_def facing_label_def)

lemma facing_keys_before:
  "set (map snd JP_TO_EN_FACING) \<inter> set (label_keys (take 9 UI_MAPPING)) = {}"
  by (simp add: JP_TO_EN_FACING_def label_keys_def UI_MAPPING_def written_keys_def)

lemma facing_keys_after:
  "set (map snd JP_TO_EN_FACING) \<inter> set (label_keys (drop 10 UI_MAPPING)) = {}"
  by (simp add: JP_TO_EN_FACING_def label_keys_def UI_MAPPING_def written_keys_def
      FEATURES_MAPPING_def DEFAULT_FEATURES_def)

lemma facing_keys_plain:
  "k \<in> set (map snd JP_TO_EN_FACING) \<Longrightarrow>
   k \<notin> set fee_keys \<and> take 6 k \<noteq> ''image_'' \<and> k \<noteq> ''link'' \<and> k \<noteq> ''create_date''"
  by (auto simp: JP_TO_EN_FACING_def fee_keys_def)

lemma facing_keys_distinct: "distinct (map snd JP_TO_EN_FACING)"
  by (simp add: JP_TO_EN_FACING_def)

lemma Y_not_N: "Y \<noteq> N" "Y \<noteq> PNone" "PNone \<noteq> Y"
  by (simp_all add: Y_def N_def u_def)

lemma process_facing_label:
  "process_label soup d (facing_label, ''facing'') =
     (case get_value_by_label soup facing_label of
        None \<Rightarrow> Inr d
      | Some v \<Rightarrow> if v = [] then Inr d else Inr (set_facing d v))"
  by (simp add: process_label_def handle_field_def split: option.splits)

lemma set_facing_apply:
  "k \<in> set (map snd JP_TO_EN_FACING) \<Longrightarrow>
   set_facing d v k =
     (if map_of JP_TO_EN_FACING (py_strip v) = Some k \<and> k \<noteq> [] then Some Y else Some N)"
  by (auto simp: set_facing_def Let_def fold_upd_const split: option.splits)

lemma filter_absent: "a \<notin> set xs \<Longrightarrow> filter (\<lambda>x. x = a) xs = []"
  by (induction xs) auto

lemma at_most_one_equal: "distinct xs \<Longrightarrow> length (filter (\<lambda>x. x = a) xs) \<le> Suc 0"
  by (induction xs) (auto simp: filter_absent)

text \<open>The facing keys after the loop over the labels.\<close>

lemma loop_facing:
  assumes "run_labels soup UI_MAPPING (initial_record K url now) = Inr d1"
    and "k \<in> set (map snd JP_TO_EN_FACING)"
  shows "d1 k =
     (case get_value_by_label soup facing_label of
        None \<Rightarrow> initial_record K url now k
      | Some v \<Rightarrow>
          if v = [] then initial_record K url now k
          else if map_of JP_TO_EN_FACING (py_strip v) = Some k \<and> k \<noteq> [] then Some Y
          else Some N)"
proof -
  from UI_MAPPING_facing assms(1) obtain dpre dm
    where pre: "run_labels soup (take 9 UI_MAPPING) (initial_record K url now) = Inr dpre"
    and mid: "process_label soup dpre (facing_label, ''facing'') = Inr dm"
    and post: "run_labels soup (drop 10 UI_MAPPING) dm = Inr d1"
    by (rule loop_entry)
  from assms(2) facing_keys_before have "k \<notin> set (label_keys (take 9 UI_MAPPING))"
    by blast
  with pre have a: "dpre k = initial_record K url now k"
    by (rule run_labels_other)
  from assms(2) facing_keys_after have "k \<notin> set (label_keys (drop 10 UI_MAPPING))"
    by blast
  with post have b: "d1 k = dm k"
    by (rule run_labels_other)
  from mid a b set_facing_apply [OF assms(2)] show ?thesis
    by (auto simp: process_facing_label split: option.splits if_splits)
qed

text \<open>
  Claim C3.  In every record that \<^verbatim>\<open>parse_property\<close> returns, at most one of the eight
  facing keys holds \<^verbatim>\<open>"Y"\<close>; and when the page has a facing text that, stripped, is no
  key of \<^verbatim>\<open>JP_TO_EN_FACING\<close>, all eight hold \<^verbatim>\<open>"N"\<close>.
\<close>

theorem facing_one_hot:
  "length (filter (\<lambda>k. result_get (parse_property OUTPUT_KEYS url now soup) k = Inr (Some Y))
             (map snd JP_TO_EN_FACING)) \<le> 1 \<and>
   (get_value_by_label soup facing_label = Some v \<and> v \<noteq> [] \<and>
    map_of JP_TO_EN_FACING (py_strip v) = None \<and> k \<in> set (map snd JP_TO_EN_FACING) \<longrightarrow>
      result_get (parse_property OUTPUT_KEYS url now soup) k = Inr (Some N))"
proof -
  obtain d1 where d1: "run_labels soup UI_MAPPING (initial_record OUTPUT_KEYS url now) = Inr d1"
    using run_labels_total by blast
  have res: "result_get (parse_property OUTPUT_KEYS url now soup) x = Inr (d1 x)"
    if "x \<in> set (map snd JP_TO_EN_FACING)" for x
    using d1 facing_keys_plain [OF that] by (simp add: result_get_loop)
  have init: "initial_record OUTPUT_KEYS url now x \<noteq> Some Y"
    if "x \<in> set (map snd JP_TO_EN_FACING)" for x
    using facing_keys_plain [OF that] by (simp add: initial_record_apply Y_not_N)
  have "\<exists>a. \<forall>x\<in>set (map snd JP_TO_EN_FACING). (d1 x = Some Y) \<longrightarrow> (x = a)"
  proof (cases "get_value_by_label soup facing_label")
    case None
    with loop_facing [OF d1] init show ?thesis by simp
  next
    case (Some w)
    show ?thesis
    proof (cases "w = []")
      case True
      with Some loop_facing [OF d1] init show ?thesis by simp
    next
      case False
      with Some loop_facing [OF d1] Y_not_N show ?thesis
        by (cases "map_of JP_TO_EN_FACING (py_strip w)") (auto split: if_splits)
    qed
  qed
  then obtain a where a: "\<And>x. x \<in> set (map snd JP_TO_EN_FACING) \<Longrightarrow> d1 x = Some Y \<Longrightarrow> x = a"
    by blast
  have "length (filter (\<lambda>k. result_get (parse_property OUTPUT_KEYS url now soup) k = Inr (Some Y))
             (map snd JP_TO_EN_FACING))
      = length (filter (\<lambda>k. d1 k = Some Y) (map snd JP_TO_EN_FACING))"
    by (rule arg_cong [where f = length], rule filter_cong) (simp_all add: res)
  also have "\<dots> = length (filter (\<lambda>k. k = a \<and> d1 k = Some Y) (map snd JP_TO_EN_FACING))"
  proof -
    have "\<And>k. k \<in> set (map snd JP_TO_EN_FACING) \<Longrightarrow> (d1 k = Some Y) = (k = a \<and> d1 k = Some Y)"
      using a by blast
    then have "filter (\<lambda>k. d1 k = Some Y) (map snd JP_TO_EN_FACING) =
        filter (\<lambda>k. k = a \<and> d1 k = Some Y) (map snd JP_TO_EN_FACING)"
      by (rule filter_cong [OF refl])
    then show ?thesis by (rule arg_cong)
  qed
  also have "\<dots> = length (filter (\<lambda>k. d1 k = Some Y) (filter (\<lambda>k. k = a) (map snd JP_TO_EN_FACING)))"
    by (simp only: filter_filter conj_commute)
  also have "\<dots> \<le> length (filter (\<lambda>k. k = a) (map snd JP_TO_EN_FACING))"
    by (rule length_filter_le)
  also have "\<dots> \<le> 1"
    using at_most_one_equal [OF facing_keys_distinct] by simp
  finally have one: "length (filter (\<lambda>k. result_get (parse_property OUTPUT_KEYS url now soup) k = Inr (Some Y))
             (map snd JP_TO_EN_FACING)) \<le> 1" .
  have none: "result_get (parse_property OUTPUT_KEYS url now soup) k = Inr (Some N)"
    if "get_value_by_label soup facing_label = Some v" "v \<noteq> []"
      "map_of JP_TO_EN_FACING (py_strip v) = None" "k \<in> set (map snd JP_TO_EN_FACING)"
    using that loop_facing [OF d1 that(4)] res [OF that(4)] by simp
  from one none show ?thesis
    by blast
qed

lemma sample_listing_facing:
  "get_value_by_label sample_listing facing_label = Some [0x5357, 0x5411, 0x304D]"
  "map_of JP_TO_EN_FACING (py_strip [0x5357, 0x5411, 0x304D]) = None"
  "''facing_south'' \<in> set (map snd JP_TO_EN_FACING)"
  by (simp_all add: sample_listing_def facing_label_def doc_eval JP_TO_EN_FACING_def)

theorem facing_one_hot_witness:
  "get_value_by_label sample_listing facing_label = Some [0x5357, 0x5411, 0x304D] \<and>
   map_of JP_TO_EN_FACING (py_strip [0x5357, 0x5411, 0x304D]) = None \<and>
   result_get (parse_property [] sample_url sample_now sample_listing) ''facing_south'' =
     Inr (Some N)"
  using facing_one_hot [of "[]" sample_url sample_now sample_listing "[0x5357, 0x5411, 0x304D]"
      "''facing_south''"]
    sample_listing_facing
  by simp

section \<open>The default features\<close>

lemma UI_MAPPING_features:
  "UI_MAPPING = take 21 UI_MAPPING @ (features_label, ''features'') # []"
  by (simp add: UI_MAPPING_def features_label_def)

lemma default_features_before:
  "set DEFAULT_FEATURES \<inter> set (label_keys (take 21 UI_MAPPING)) = {}"
  by (simp add: DEFAULT_FEATURES_def label_keys_def UI_MAPPING_def written_keys_def
      JP_TO_EN_FACING_def)

lemma default_features_plain:
  "k \<in> set DEFAULT_FEATURES \<Longrightarrow> k \<notin> set fee_keys \<and> take 6 k \<noteq> ''image_''"
  by (auto simp: DEFAULT_FEATURES_def fee_keys_def)

lemma process_features_label:
  "process_label soup d (features_label, ''features'') =
     (case get_value_by_label soup features_label of
        None \<Rightarrow> Inr d
      | Some v \<Rightarrow> if v = [] then Inr d else Inr (set_features d v))"
  by (simp add: process_label_def handle_field_def split: option.splits)

lemma set_features_default: "k \<in> set DEFAULT_FEATURES \<Longrightarrow> set_features d v k = Some Y"
  by (simp add: set_features_def Let_def fold_upd_const)

text \<open>The default feature keys after the loop over the labels.\<close>

lemma loop_default_features:
  assumes "run_labels soup UI_MAPPING (initial_record K url now) = Inr d1"
    and "k \<in> set DEFAULT_FEATURES"
  shows "d1 k =
     (case get_value_by_label soup features_label of
        None \<Rightarrow> initial_record K url now k
      | Some v \<Rightarrow> if v = [] then initial_record K url now k else Some Y)"
proof -
  from UI_MAPPING_features assms(1) obtain dpre dm
    where pre: "run_labels soup (take 21 UI_MAPPING) (initial_record K url now) = Inr dpre"
    and mid: "process_label soup dpre (features_label, ''features'') = Inr dm"
    and post: "run_labels soup [] dm = Inr d1"
    by (rule loop_entry)
  from assms(2) default_features_before have "k \<notin> set (label_keys (take 21 UI_MAPPING))"
    by blast
  with pre have a: "dpre k = initial_record K url now k"
    by (rule run_labels_other)
  from post have b: "d1 = dm" by simp
  from mid a b set_features_default [OF assms(2)] show ?thesis
    by (auto simp: process_features_label split: option.splits if_splits)
qed

lemma bare_listing_features: "get_value_by_label bare_listing features_label = None"
  by (simp add: bare_listing_def features_label_def doc_eval)

lemma aircon_declared: "''aircon'' \<in> set DEFAULT_FEATURES" "''aircon'' \<in> set normalizer_keys"
  by (simp_all add: DEFAULT_FEATURES_def normalizer_keys_def label_keys_def UI_MAPPING_def
      written_keys_def JP_TO_EN_FACING_def FEATURES_MAPPING_def)

text \<open>
  Claim C4.  For every page, every key of \<^verbatim>\<open>DEFAULT_FEATURES\<close> holds \<^verbatim>\<open>"Y"\<close> in the
  returned record, whatever the features text; the comment above the list says the same
  (\<^verbatim>\<open>always marked "Y"\<close>).  The code forces the default features inside the features
  branch of the loop only: on a page without a features field the loop skips the label,
  and \<^verbatim>\<open>aircon\<close>, a default feature, keeps the \<^verbatim>\<open>None\<close> it started with.
\<close>

theorem default_features_unset:
  "''aircon'' \<in> set DEFAULT_FEATURES \<and>
   result_get (parse_property normalizer_keys sample_url sample_now bare_listing) ''aircon'' =
     Inr (Some PNone) \<and>
   result_get (parse_property normalizer_keys sample_url sample_now bare_listing) ''aircon'' \<noteq>
     Inr (Some Y)"
proof -
  obtain d1 where d1: "run_labels bare_listing UI_MAPPING
      (initial_record normalizer_keys sample_url sample_now) = Inr d1"
    using run_labels_total by blast
  from loop_default_features [OF d1 aircon_declared(1)] bare_listing_features
  have "d1 ''aircon'' = Some PNone"
    by (simp add: initial_record_apply aircon_declared)
  moreover have "result_get (parse_property normalizer_keys sample_url sample_now bare_listing)
      ''aircon'' = Inr (d1 ''aircon'')"
    using d1 default_features_plain [OF aircon_declared(1)] by (simp add: result_get_loop)
  ultimately show ?thesis
    using aircon_declared(1) Y_not_N by simp
qed

text \<open>
  What the code does for the default features: on a page whose features field is found and
  is not empty, every key of \<^verbatim>\<open>DEFAULT_FEATURES\<close> holds \<^verbatim>\<open>"Y"\<close> in the returned
  record, whatever the tokens of the field; on a page without such a field the key holds
  what the record started with.
\<close>

theorem default_features_forced:
  "(get_value_by_label soup features_label = Some v \<and> v \<noteq> [] \<and> k \<in> set DEFAULT_FEATURES \<longrightarrow>
      result_get (parse_property OUTPUT_KEYS url now soup) k = Inr (Some Y)) \<and>
   ((get_value_by_label soup features_label = None \<or>
     get_value_by_label soup features_label = Some []) \<and> k \<in> set DEFAULT_FEATURES \<longrightarrow>
      result_get (parse_property OUTPUT_KEYS url now soup) k =
        Inr (initial_record OUTPUT_KEYS url now k))"
proof -
  obtain d1 where d1: "run_labels soup UI_MAPPING (initial_record OUTPUT_KEYS url now) = Inr d1"
    using run_labels_total by blast
  have res: "result_get (parse_property OUTPUT_KEYS url now soup) k = Inr (d1 k)"
    if "k \<in> set DEFAULT_FEATURES"
    using d1 default_features_plain [OF that] by (simp add: result_get_loop)
  show ?thesis
    using res loop_default_features [OF d1, of k] by auto
qed

lemma sample_listing_features:
  "get_value_by_label sample_listing features_label =
     Some [0x30D0, 0x30EB, 0x30B3, 0x30CB, 0x30FC, 0x3001, 0x6D74, 0x5BA4]"
  by (simp add: sample_listing_def features_label_def doc_eval)

theorem default_features_forced_witness:
  "get_value_by_label sample_listing features_label =
     Some [0x30D0, 0x30EB, 0x30B3, 0x30CB, 0x30FC, 0x3001, 0x6D74, 0x5BA4] \<and>
   ''aircon'' \<in> set DEFAULT_FEATURES \<and>
   result_get (parse_property normalizer_keys sample_url sample_now sample_listing) ''aircon'' =
     Inr (Some Y) \<and>
   get_value_by_label bare_listing features_label = None \<and>
   result_get (parse_property normalizer_keys sample_url sample_now bare_listing) ''aircon'' =
     Inr (initial_record normalizer_keys sample_url sample_now ''aircon'')"
  using default_features_forced [of sample_listing
      "[0x30D0, 0x30EB, 0x30B3, 0x30CB, 0x30FC, 0x3001, 0x6D74, 0x5BA4]" "''aircon''"
      normalizer_keys sample_url sample_now]
    default_features_forced [of bare_listing _ "''aircon''" normalizer_keys sample_url sample_now]
    sample_listing_features bare_listing_features aircon_declared(1)
  by simp

section \<open>The composite fee fields\<close>

lemma UI_MAPPING_deposit:
  "UI_MAPPING = take 12 UI_MAPPING @ (deposit_label, ''deposit/security_deposit'') # drop 13 UI_MAPPING"
  by (simp add: UI_MAPPING_def deposit_label_def)

lemma UI_MAPPING_key_money:
  "UI_MAPPING = take 13 UI_MAPPING @ (key_money_label, ''key_money/amortization'') # drop 14 UI_MAPPING"
  by (simp add: UI_MAPPING_def key_money_label_def)

lemma deposit_keys_elsewhere:
  "{''months_security_deposit'', ''numeric_security_deposit''} \<inter> set (label_keys (take 12 UI_MAPPING)) = {}"
  "{''months_security_deposit'', ''numeric_security_deposit''} \<inter> set (label_keys (drop 13 UI_MAPPING)) = {}"
  by (simp_all add: label_keys_def UI_MAPPING_def written_keys_def JP_TO_EN_FACING_def
      FEATURES_MAPPING_def DEFAULT_FEATURES_def)

lemma key_money_keys_elsewhere:
  "{''months_key'', ''numeric_key''} \<inter> set (label_keys (take 13 UI_MAPPING)) = {}"
  "{''months_key'', ''numeric_key''} \<inter> set (label_keys (drop 14 UI_MAPPING)) = {}"
  by (simp_all add: label_keys_def UI_MAPPING_def written_keys_def JP_TO_EN_FACING_def
      FEATURES_MAPPING_def DEFAULT_FEATURES_def)

lemma process_deposit_label:
  "process_label soup d (deposit_label, ''deposit/security_deposit'') =
     (case get_value_by_label soup deposit_label of
        None \<Rightarrow> Inr d
      | Some v \<Rightarrow>
          if v = [] then Inr d
          else Inr (split_pair d ''months_security_deposit'' ''numeric_security_deposit'' v))"
  by (simp add: process_label_def handle_field_def split: option.splits)

lemma process_key_money_label:
  "process_label soup d (key_money_label, ''key_money/amortization'') =
     (case get_value_by_label soup key_money_label of
        None \<Rightarrow> Inr d
      | Some v \<Rightarrow> if v = [] then Inr d else Inr (split_pair d ''months_key'' ''numeric_key'' v))"
  by (simp add: process_label_def handle_field_def split: option.splits)

lemma split_pair_two:
  "py_split 0x2F v = [a, b] \<Longrightarrow> k1 \<noteq> k2 \<Longrightarrow>
   split_pair d k1 k2 v k1 = Some (PStr (dash_to_zero a)) \<and>
   split_pair d k1 k2 v k2 = Some (PStr (dash_to_zero b))"
  by (simp add: split_pair_def)

lemma split_pair_skipped: "length (py_split 0x2F v) \<noteq> 2 \<Longrightarrow> split_pair d k1 k2 v = d"
  by (simp add: split_pair_def)

text \<open>
  A composite field at its place in the table: what the loop leaves under its two
  sub-keys.
\<close>

lemma loop_pair:
  assumes table: "UI_MAPPING = pre @ (label, key) # post"
    and step: "\<And>d. process_label soup d (label, key) =
      (case get_value_by_label soup label of
         None \<Rightarrow> Inr d
       | Some v \<Rightarrow> if v = [] then Inr d else Inr (split_pair d k1 k2 v))"
    and apart: "{k1, k2} \<inter> set (label_keys pre) = {}" "{k1, k2} \<inter> set (label_keys post) = {}"
      "k1 \<noteq> k2"
    and run: "run_labels soup UI_MAPPING d0 = Inr d1"
    and found: "get_value_by_label soup label = Some v" "v \<noteq> []"
  shows "py_split 0x2F v = [a, b] \<Longrightarrow>
           d1 k1 = Some (PStr (dash_to_zero a)) \<and> d1 k2 = Some (PStr (dash_to_zero b))"
    and "length (py_split 0x2F v) \<noteq> 2 \<Longrightarrow> d1 k1 = d0 k1 \<and> d1 k2 = d0 k2"
proof -
  from table run obtain dpre dm where pre: "run_labels soup pre d0 = Inr dpre"
    and mid: "process_label soup dpre (label, key) = Inr dm"
    and post: "run_labels soup post dm = Inr d1"
    by (rule loop_entry)
  from apart have "k1 \<notin> set (label_keys pre)" "k2 \<notin> set (label_keys pre)"
    "k1 \<notin> set (label_keys post)" "k2 \<notin> set (label_keys post)"
    by auto
  with pre post have before: "dpre k1 = d0 k1" "dpre k2 = d0 k2"
    and after: "d1 k1 = dm k1" "d1 k2 = dm k2"
    by (simp_all add: run_labels_other)
  from mid found have dm: "dm = split_pair dpre k1 k2 v"
    by (simp add: step)
  show "d1 k1 = Some (PStr (dash_to_zero a)) \<and> d1 k2 = Some (PStr (dash_to_zero b))"
    if "py_split 0x2F v = [a, b]"
    using split_pair_two [OF that apart(3), of dpre] after dm by simp
  show "d1 k1 = d0 k1 \<and> d1 k2 = d0 k2" if "length (py_split 0x2F v) \<noteq> 2"
    using split_pair_skipped [OF that, of dpre k1 k2] before after dm by simp
qed

lemma pair_keys_plain:
  "k \<in> {''months_security_deposit'', ''numeric_security_deposit'', ''months_key'', ''numeric_key''} \<Longrightarrow>
   k \<notin> set fee_keys \<and> take 6 k \<noteq> ''image_''"
  by (auto simp: fee_keys_def)

lemma result_deposit:
  assumes "get_value_by_label soup deposit_label = Some v" "v \<noteq> []"
  shows "py_split 0x2F v = [a, b] \<Longrightarrow>
      result_get (parse_property K url now soup) ''months_security_deposit'' =
        Inr (Some (PStr (dash_to_zero a))) \<and>
      result_get (parse_property K url now soup) ''numeric_security_deposit'' =
        Inr (Some (PStr (dash_to_zero b)))"
    and "length (py_split 0x2F v) \<noteq> 2 \<Longrightarrow>
      result_get (parse_property K url now soup) ''months_security_deposit'' =
        Inr (initial_record K url now ''months_security_deposit'') \<and>
      result_get (parse_property K url now soup) ''numeric_security_deposit'' =
        Inr (initial_record K url now ''numeric_security_deposit'')"
proof -
  obtain d1 where d1: "run_labels soup UI_MAPPING (initial_record K url now) = Inr d1"
    using run_labels_total by blast
  have res: "result_get (parse_property K url now soup) ''months_security_deposit'' =
      Inr (d1 ''months_security_deposit'')"
    "result_get (parse_property K url now soup) ''numeric_security_deposit'' =
      Inr (d1 ''numeric_security_deposit'')"
    using d1 by (simp_all add: result_get_loop pair_keys_plain)
  note at_entry = loop_pair [OF UI_MAPPING_deposit process_deposit_label deposit_keys_elsewhere _ d1 assms]
  show "result_get (parse_property K url now soup) ''months_security_deposit'' =
        Inr (Some (PStr (dash_to_zero a))) \<and>
      result_get (parse_property K url now soup) ''numeric_security_deposit'' =
        Inr (Some (PStr (dash_to_zero b)))" if "py_split 0x2F v = [a, b]"
    using at_entry(1) [OF _ that] res by simp
  show "result_get (parse_property K url now soup) ''months_security_deposit'' =
        Inr (initial_record K url now ''months_security_deposit'') \<and>
      result_get (parse_property K url now soup) ''numeric_security_deposit'' =
        Inr (initial_record K url now ''numeric_security_deposit'')"
    if "length (py_split 0x2F v) \<noteq> 2"
    using at_entry(2) [OF _ that] res by simp
qed

lemma result_key_money:
  assumes "get_value_by_label soup key_money_label = Some v" "v \<noteq> []"
  shows "py_split 0x2F v = [a, b] \<Longrightarrow>
      result_get (parse_property K url now soup) ''months_key'' =
        Inr (Some (PStr (dash_to_zero a))) \<and>
      result_get (parse_property K url now soup) ''numeric_key'' =
        Inr (Some (PStr (dash_to_zero b)))"
    and "length (py_split 0x2F v) \<noteq> 2 \<Longrightarrow>
      result_get (parse_property K url now soup) ''months_key'' =
        Inr (initial_record K url now ''months_key'') \<and>
      result_get (parse_property K url now soup) ''numeric_key'' =
        Inr (initial_record K url now ''numeric_key'')"
proof -
  obtain d1 where d1: "run_labels soup UI_MAPPING (initial_record K url now) = Inr d1"
    using run_labels_total by blast
  have res: "result_get (parse_property K url now soup) ''months_key'' = Inr (d1 ''months_key'')"
    "result_get (parse_property K url now soup) ''numeric_key'' = Inr (d1 ''numeric_key'')"
    using d1 by (simp_all add: result_get_loop pair_keys_plain)
  note at_entry = loop_pair [OF UI_MAPPING_key_money process_key_money_label key_money_keys_elsewhere _ d1 assms]
  show "result_get (parse_property K url now soup) ''months_key'' =
        Inr (Some (PStr (dash_to_zero a))) \<and>
      result_get (parse_property K url now soup) ''numeric_key'' =
        Inr (Some (PStr (dash_to_zero b)))" if "py_split 0x2F v = [a, b]"
    using at_entry(1) [OF _ that] res by simp
  show "result_get (parse_property K url now soup) ''months_key'' =
        Inr (initial_record K url now ''months_key'') \<and>
      result_get (parse_property K url now soup) ''numeric_key'' =
        Inr (initial_record K url now ''numeric_key'')"
    if "length (py_split 0x2F v) \<noteq> 2"
    using at_entry(2) [OF _ that] res by simp
qed

lemmas part_eval = dash_to_zero_def py_strip_def py_isspace_def u_def

text \<open>
  Claim C5, as stated, fails on a deposit text with blanks around the slash: the parts
  of \<^verbatim>\<open>"- / 300,000"\<close> are \<^verbatim>\<open>"- "\<close> and \<^verbatim>\<open>" 300,000"\<close>, neither of them the dash,
  and the record holds \<^verbatim>\<open>"0"\<close> and \<^verbatim>\<open>"300,000"\<close>, not the parts.
\<close>

lemma sample_listing_deposit:
  "get_value_by_label sample_listing deposit_label = Some (u ''- / 300,000'')"
  "u ''- / 300,000'' \<noteq> []"
  "py_split 0x2F (u ''- / 300,000'') = [u ''- '', u '' 300,000'']"
  "dash_to_zero (u ''- '') = u ''0''"
  "dash_to_zero (u '' 300,000'') = u ''300,000''"
  by (simp_all add: sample_listing_def deposit_label_def doc_eval part_eval)

theorem composite_split_counterexample:
  "get_value_by_label sample_listing deposit_label = Some (u ''- / 300,000'') \<and>
   py_split 0x2F (u ''- / 300,000'') = [u ''- '', u '' 300,000''] \<and>
   u ''- '' \<noteq> u ''-'' \<and>
   result_get (parse_property normalizer_keys sample_url sample_now sample_listing)
     ''months_security_deposit'' = Inr (Some (PStr (u ''0''))) \<and>
   result_get (parse_property normalizer_keys sample_url sample_now sample_listing)
     ''months_security_deposit'' \<noteq> Inr (Some (PStr (u ''- ''))) \<and>
   result_get (parse_property normalizer_keys sample_url sample_now sample_listing)
     ''numeric_security_deposit'' = Inr (Some (PStr (u ''300,000''))) \<and>
   result_get (parse_property normalizer_keys sample_url sample_now sample_listing)
     ''numeric_security_deposit'' \<noteq> Inr (Some (PStr (u '' 300,000'')))"
proof -
  from result_deposit(1) [OF sample_listing_deposit(1,2,3), of normalizer_keys sample_url sample_now]
  have "result_get (parse_property normalizer_keys sample_url sample_now sample_listing)
     ''months_security_deposit'' = Inr (Some (PStr (u ''0'')))"
    and "result_get (parse_property normalizer_keys sample_url sample_now sample_listing)
     ''numeric_security_deposit'' = Inr (Some (PStr (u ''300,000'')))"
    by (simp_all only: sample_listing_deposit(4,5))
  moreover have "u ''- '' \<noteq> u ''-''" "u ''0'' \<noteq> u ''- ''" "u ''300,000'' \<noteq> u '' 300,000''"
    by (simp_all add: u_def)
  ultimately show ?thesis
    using sample_listing_deposit(1,3) by simp
qed

text \<open>
  Claim C5, amended.  For the deposit/security-deposit and the key-money/amortization
  fields: when the split of the raw value on the slash gives exactly two parts, each
  part, stripped of the blanks around it, is stored under the two sub-keys from left to
  right, a stripped part that is the dash being replaced by \<^verbatim>\<open>"0"\<close> (so
  \<^verbatim>\<open>"2/300,000"\<close> gives \<^verbatim>\<open>"2"\<close> and \<^verbatim>\<open>"300,000"\<close>, and \<^verbatim>\<open>"-/-"\<close> gives \<^verbatim>\<open>"0"\<close>
  twice); when the split does not give exactly two parts, neither sub-key is written.
\<close>

theorem composite_split:
  "(get_value_by_label soup deposit_label = Some v \<and> v \<noteq> [] \<and> py_split 0x2F v = [a, b] \<longrightarrow>
      result_get (parse_property OUTPUT_KEYS url now soup) ''months_security_deposit'' =
        Inr (Some (PStr (dash_to_zero a))) \<and>
      result_get (parse_property OUTPUT_KEYS url now soup) ''numeric_security_deposit'' =
        Inr (Some (PStr (dash_to_zero b)))) \<and>
   (get_value_by_label soup deposit_label = Some v \<and> v \<noteq> [] \<and> length (py_split 0x2F v) \<noteq> 2 \<longrightarrow>
      result_get (parse_property OUTPUT_KEYS url now soup) ''months_security_deposit'' =
        Inr (initial_record OUTPUT_KEYS url now ''months_security_deposit'') \<and>
      result_get (parse_property OUTPUT_KEYS url now soup) ''numeric_security_deposit'' =
        Inr (initial_record OUTPUT_KEYS url now ''numeric_security_deposit'')) \<and>
   (get_value_by_label soup key_money_label = Some w \<and> w \<noteq> [] \<and> py_split 0x2F w = [a, b] \<longrightarrow>
      result_get (parse_property OUTPUT_KEYS url now soup) ''months_key'' =
        Inr (Some (PStr (dash_to_zero a))) \<and>
      result_get (parse_property OUTPUT_KEYS url now soup) ''numeric_key'' =
        Inr (Some (PStr (dash_to_zero b)))) \<and>
   (get_value_by_label soup key_money_label = Some w \<and> w \<noteq> [] \<and> length (py_split 0x2F w) \<noteq> 2 \<longrightarrow>
      result_get (parse_property OUTPUT_KEYS url now soup) ''months_key'' =
        Inr (initial_record OUTPUT_KEYS url now ''months_key'') \<and>
      result_get (parse_property OUTPUT_KEYS url now soup) ''numeric_key'' =
        Inr (initial_record OUTPUT_KEYS url now ''numeric_key'')) \<and>
   py_split 0x2F (u ''2/300,000'') = [u ''2'', u ''300,000''] \<and>
   dash_to_zero (u ''2'') = u ''2'' \<and> dash_to_zero (u ''300,000'') = u ''300,000'' \<and>
   py_split 0x2F (u ''-/-'') = [u ''-'', u ''-''] \<and> dash_to_zero (u ''-'') = u ''0''"
proof (intro conjI impI)
  assume h: "get_value_by_label soup deposit_label = Some v \<and> v \<noteq> [] \<and> py_split 0x2F v = [a, b]"
  then have r: "result_get (parse_property OUTPUT_KEYS url now soup) ''months_security_deposit'' =
        Inr (Some (PStr (dash_to_zero a))) \<and>
      result_get (parse_property OUTPUT_KEYS url now soup) ''numeric_security_deposit'' =
        Inr (Some (PStr (dash_to_zero b)))"
    by (simp add: result_deposit(1))
  from r show "result_get (parse_property OUTPUT_KEYS url now soup) ''months_security_deposit'' =
        Inr (Some (PStr (dash_to_zero a)))" ..
  from r show "result_get (parse_property OUTPUT_KEYS url now soup) ''numeric_security_deposit'' =
        Inr (Some (PStr (dash_to_zero b)))" ..
next
  assume h: "get_value_by_label soup deposit_label = Some v \<and> v \<noteq> [] \<and> length (py_split 0x2F v) \<noteq> 2"
  then have r: "result_get (parse_property OUTPUT_KEYS url now soup) ''months_security_deposit'' =
        Inr (initial_record OUTPUT_KEYS url now ''months_security_deposit'') \<and>
      result_get (parse_property OUTPUT_KEYS url now soup) ''numeric_security_deposit'' =
        Inr (initial_record OUTPUT_KEYS url now ''numeric_security_deposit'')"
    by (simp add: result_deposit(2))
  from r show "result_get (parse_property OUTPUT_KEYS url now soup) ''months_security_deposit'' =
        Inr (initial_record OUTPUT_KEYS url now ''months_security_deposit'')" ..
  from r show "result_get (parse_property OUTPUT_KEYS url now soup) ''numeric_security_deposit'' =
        Inr (initial_record OUTPUT_KEYS url now ''numeric_security_deposit'')" ..
next
  assume h: "get_value_by_label soup key_money_label = Some w \<and> w \<noteq> [] \<and> py_split 0x2F w = [a, b]"
  then have r: "result_get (parse_property OUTPUT_KEYS url now soup) ''months_key'' =
        Inr (Some (PStr (dash_to_zero a))) \<and>
      result_get (parse_property OUTPUT_KEYS url now soup) ''numeric_key'' =
        Inr (Some (PStr (dash_to_zero b)))"
    by (simp add: result_key_money(1))
  from r show "result_get (parse_property OUTPUT_KEYS url now soup) ''months_key'' =
        Inr (Some (PStr (dash_to_zero a)))" ..
  from r show "result_get (parse_property OUTPUT_KEYS url now soup) ''numeric_key'' =
        Inr (Some (PStr (dash_to_zero b)))" ..
next
  assume h: "get_value_by_label soup key_money_label = Some w \<and> w \<noteq> [] \<and> length (py_split 0x2F w) \<noteq> 2"
  then have r: "result_get (parse_property OUTPUT_KEYS url now soup) ''months_key'' =
        Inr (initial_record OUTPUT_KEYS url now ''months_key'') \<and>
      result_get (parse_property OUTPUT_KEYS url now soup) ''numeric_key'' =
        Inr (initial_record OUTPUT_KEYS url now ''numeric_key'')"
    by (simp add: result_key_money(2))
  from r show "result_get (parse_property OUTPUT_KEYS url now soup) ''months_key'' =
        Inr (initial_record OUTPUT_KEYS url now ''months_key'')" ..
  from r show "result_get (parse_property OUTPUT_KEYS url now soup) ''numeric_key'' =
        Inr (initial_record OUTPUT_KEYS url now ''numeric_key'')" ..
qed (simp_all add: part_eval)

lemma bare_listing_deposit:
  "get_value_by_label bare_listing deposit_label = Some (u ''2/300,000'')"
  "u ''2/300,000'' \<noteq> []"
  by (simp_all add: bare_listing_def deposit_label_def doc_eval u_def)

lemma sample_listing_key_money:
  "get_value_by_label sample_listing key_money_label = Some [0x306A, 0x3057]"
  "length (py_split 0x2F [0x306A, 0x3057]) \<noteq> 2"
  by (simp_all add: sample_listing_def key_money_label_def doc_eval)

theorem composite_split_witness:
  "get_value_by_label bare_listing deposit_label = Some (u ''2/300,000'') \<and>
   result_get (parse_property [] sample_url sample_now bare_listing) ''months_security_deposit'' =
     Inr (Some (PStr (u ''2''))) \<and>
   result_get (parse_property [] sample_url sample_now bare_listing) ''numeric_security_deposit'' =
     Inr (Some (PStr (u ''300,000''))) \<and>
   get_value_by_label sample_listing key_money_label = Some [0x306A, 0x3057] \<and>
   length (py_split 0x2F [0x306A, 0x3057]) \<noteq> 2 \<and>
   result_get (parse_property [] sample_url sample_now sample_listing) ''months_key'' = Inr None \<and>
   result_get (parse_property [] sample_url sample_now sample_listing) ''numeric_key'' = Inr None"
proof -
  note two = composite_split [where soup = bare_listing and v = "u ''2/300,000''"
      and a = "u ''2''" and b = "u ''300,000''" and OUTPUT_KEYS = "[]" and url = sample_url
      and now = sample_now]
  from two bare_listing_deposit have
    "result_get (parse_property [] sample_url sample_now bare_listing) ''months_security_deposit'' =
       Inr (Some (PStr (u ''2'')))"
    "result_get (parse_property [] sample_url sample_now bare_listing) ''numeric_security_deposit'' =
       Inr (Some (PStr (u ''300,000'')))"
    by simp_all
  moreover
  note one = composite_split [where soup = sample_listing and w = "[0x306A, 0x3057]"
      and OUTPUT_KEYS = "[]" and url = sample_url and now = sample_now]
  from one sample_listing_key_money have
    "result_get (parse_property [] sample_url sample_now sample_listing) ''months_key'' = Inr None"
    "result_get (parse_property [] sample_url sample_now sample_listing) ''numeric_key'' = Inr None"
    by (simp_all add: initial_record_apply)
  ultimately show ?thesis
    using bare_listing_deposit(1) sample_listing_key_money by simp
qed

section \<open>The rent range\<close>

lemma result_rent:
  assumes "get_value_by_label soup rent_label = Some v" and "v \<noteq> []"
    and "rent_text v = Inr kept"
  shows "result_get (parse_property K url now soup) ''monthly_rent'' = Inr (Some (PStr kept))"
proof -
  obtain d1 where d1: "run_labels soup UI_MAPPING (initial_record K url now) = Inr d1"
    using run_labels_total by blast
  from d1 assms have "d1 ''monthly_rent'' = Some (PStr kept)"
    by (rule loop_rent_found)
  moreover have "result_get (parse_property K url now soup) ''monthly_rent'' =
      Inr (d1 ''monthly_rent'')"
    using d1 by (simp add: result_get_loop fee_keys_def)
  ultimately show ?thesis by simp
qed

lemma rent_range_text:
  "py_split 0x301C [0x38, 0x2E, 0x35, 0x301C, 0x39, 0x2E, 0x32, 0x4E07, 0x5186] =
     [u ''8.5'', [0x39, 0x2E, 0x32, 0x4E07, 0x5186]]"
  "py_strip (u ''8.5'') = u ''8.5''"
  "rent_text [0x38, 0x2E, 0x35, 0x301C, 0x39, 0x2E, 0x32, 0x4E07, 0x5186] = Inr (u ''8.5'')"
  by (simp_all add: rent_text_def py_strip_def py_isspace_def u_def)

lemma py_float_8_5: "py_float [56, 46, 53] = Inr (Num False (17 / 2))"
  by (simp add: py_float_eval)

lemma yen_of_8_5: "float_of_rat False 85000 = Num False 85000"
  by (simp add: float_eval)

lemma parse_rent_8_5: "parse_rent (Some (PStr (u ''8.5''))) = Inr (PyFloat (Num False 85000))"
  by (simp add: parse_rent_def py_truthy_def py_strip_def py_isspace_def u_def py_float_8_5
      yen_of_8_5)

lemma sample_listing_rent:
  "get_value_by_label sample_listing rent_label =
     Some [0x38, 0x2E, 0x35, 0x301C, 0x39, 0x2E, 0x32, 0x4E07, 0x5186]"
  by (simp add: sample_listing_def rent_label_def doc_eval)

text \<open>
  Claim C6, as stated, fails on its own example: of \<^verbatim>\<open>"8.5\<dots>9.2\<dots>"\<close> with the wave
  dash between the two numbers and the currency suffix at the end, the text before the
  wave dash is \<^verbatim>\<open>"8.5"\<close>, and this is what the record holds, without the suffix.
\<close>

theorem rent_range_counterexample:
  "get_value_by_label sample_listing rent_label =
     Some [0x38, 0x2E, 0x35, 0x301C, 0x39, 0x2E, 0x32, 0x4E07, 0x5186] \<and>
   result_get (parse_property normalizer_keys sample_url sample_now sample_listing)
     ''monthly_rent'' = Inr (Some (PStr [0x38, 0x2E, 0x35])) \<and>
   result_get (parse_property normalizer_keys sample_url sample_now sample_listing)
     ''monthly_rent'' \<noteq> Inr (Some (PStr [0x38, 0x2E, 0x35, 0x4E07, 0x5186]))"
proof -
  have "result_get (parse_property normalizer_keys sample_url sample_now sample_listing)
     ''monthly_rent'' = Inr (Some (PStr (u ''8.5'')))"
    using sample_listing_rent _ rent_range_text(3) by (rule result_rent) simp
  then show ?thesis
    using sample_listing_rent by (simp add: u_def)
qed

text \<open>
  Claim C6, amended.  For a monthly-rent raw value that contains the wave dash, what is
  stored as \<^verbatim>\<open>monthly_rent\<close> is the text before the first wave dash, stripped of the
  blanks around it; a currency suffix that stands after the wave dash goes with the
  rest.  The example of the claim is stored as \<^verbatim>\<open>"8.5"\<close>, and the numeric derivation
  parses it to the yen value 85000.
\<close>

theorem rent_range:
  "(get_value_by_label soup rent_label = Some v \<and> 0x301C \<in> set v \<and>
    py_split 0x301C v = first # others \<longrightarrow>
      result_get (parse_property OUTPUT_KEYS url now soup) ''monthly_rent'' =
        Inr (Some (PStr (py_strip first)))) \<and>
   py_split 0x301C [0x38, 0x2E, 0x35, 0x301C, 0x39, 0x2E, 0x32, 0x4E07, 0x5186] =
     [u ''8.5'', [0x39, 0x2E, 0x32, 0x4E07, 0x5186]] \<and>
   py_strip (u ''8.5'') = u ''8.5'' \<and>
   parse_rent (Some (PStr (u ''8.5''))) = Inr (PyFloat (Num False 85000))"
proof (intro conjI impI)
  assume h: "get_value_by_label soup rent_label = Some v \<and> 0x301C \<in> set v \<and>
    py_split 0x301C v = first # others"
  then have "v \<noteq> []" and "rent_text v = Inr (py_strip first)"
    by (auto simp: rent_text_def)
  with h show "result_get (parse_property OUTPUT_KEYS url now soup) ''monthly_rent'' =
        Inr (Some (PStr (py_strip first)))"
    by (simp add: result_rent)
qed (simp_all only: rent_range_text parse_rent_8_5)

theorem rent_range_witness:
  "get_value_by_label sample_listing rent_label =
     Some [0x38, 0x2E, 0x35, 0x301C, 0x39, 0x2E, 0x32, 0x4E07, 0x5186] \<and>
   py_split 0x301C [0x38, 0x2E, 0x35, 0x301C, 0x39, 0x2E, 0x32, 0x4E07, 0x5186] =
     [u ''8.5'', [0x39, 0x2E, 0x32, 0x4E07, 0x5186]] \<and>
   result_get (parse_property [] sample_url sample_now sample_listing) ''monthly_rent'' =
     Inr (Some (PStr (u ''8.5'')))"
proof -
  note at_sample = rent_range [where soup = sample_listing
      and v = "[0x38, 0x2E, 0x35, 0x301C, 0x39, 0x2E, 0x32, 0x4E07, 0x5186]"
      and first = "u ''8.5''" and others = "[[0x39, 0x2E, 0x32, 0x4E07, 0x5186]]"
      and OUTPUT_KEYS = "[]" and url = sample_url and now = sample_now]
  have "(0x301C::nat) \<in> set [0x38, 0x2E, 0x35, 0x301C, 0x39, 0x2E, 0x32, 0x4E07, 0x5186]"
    by simp
  with at_sample sample_listing_rent rent_range_text(1,2)
  have "result_get (parse_property [] sample_url sample_now sample_listing) ''monthly_rent'' =
     Inr (Some (PStr (u ''8.5'')))"
    by simp
  with sample_listing_rent rent_range_text(1) show ?thesis
    by simp
qed

end
